theory Spec2Isabelle
  imports Main "HOL-Library.Word"
begin

unbundle bit_operations_syntax

section \<open>Platform types and result codes\<close>

text \<open>
  \<^verbatim>\<open>DWORD\<close> and \<^verbatim>\<open>HRESULT\<close> are 32-bit values. A COM interface pointer is modelled
  as the address of the object it points to; the null pointer is address 0.
  \<^verbatim>\<open>AUDCLNT_S_NO_SINGLE_PROCESS\<close> is written in the source as
  \<^verbatim>\<open>AUDCLNT_SUCCESS (0x00d)\<close>; the other codes are those of the platform headers.
\<close>

type_synonym DWORD = "32 word"
type_synonym HRESULT = "32 word"
type_synonym handle = nat

definition S_OK :: HRESULT where
  "S_OK = 0"

definition S_FALSE :: HRESULT where
  "S_FALSE = 1"

definition E_POINTER :: HRESULT where
  "E_POINTER = 0x80004003"

definition E_FAIL :: HRESULT where
  "E_FAIL = 0x80004005"

definition E_INVALIDARG :: HRESULT where
  "E_INVALIDARG = 0x80070057"

definition E_UNEXPECTED :: HRESULT where
  "E_UNEXPECTED = 0x8000FFFF"

definition FACILITY_AUDCLNT :: HRESULT where
  "FACILITY_AUDCLNT = 0x889"

definition AUDCLNT_SUCCESS :: "HRESULT \<Rightarrow> HRESULT" where
  "AUDCLNT_SUCCESS n = (push_bit 16 FACILITY_AUDCLNT) OR n"

definition AUDCLNT_S_NO_SINGLE_PROCESS :: HRESULT where
  "AUDCLNT_S_NO_SINGLE_PROCESS = AUDCLNT_SUCCESS 0x00d"

definition OBJID_WINDOW :: "32 word" where
  "OBJID_WINDOW = 0"

definition CHILDID_SELF :: "32 word" where
  "CHILDID_SELF = 0"

definition EVENT_SYSTEM_FOREGROUND :: DWORD where
  "EVENT_SYSTEM_FOREGROUND = 3"

section \<open>The audio subsystem and the program's globals\<close>

text \<open>
  What one audio session object answers to the calls the program makes on it. Each
  field is the \<^verbatim>\<open>HRESULT\<close> of the call, paired with the value written to the out
  parameter where the program reads it. \<^verbatim>\<open>QueryInterface\<close> leaves a null pointer
  behind exactly when it does not return \<^verbatim>\<open>S_OK\<close>, and \<^verbatim>\<open>SetMute\<close> changes the
  session's mute state exactly when it returns \<^verbatim>\<open>S_OK\<close>.
\<close>

record session_caps =
  GetDisplayName :: HRESULT
  GetSessionIdentifier :: "HRESULT \<times> string"
  GetSessionInstanceIdentifier :: "HRESULT \<times> string"
  GetProcessId :: "HRESULT \<times> DWORD"
  IsSystemSoundsSession :: HRESULT
  RegisterAudioSessionNotification :: HRESULT
  QueryInterface_IAudioSessionControl2 :: HRESULT
  QueryInterface_ISimpleAudioVolume :: HRESULT
  SetMute_result :: HRESULT

text \<open>
  The state: the audio subsystem (\<open>caps\<close>, \<open>muted\<close>, the reference count of every
  session object, whether the program's event sink is registered on it, and the
  sequence of \<^verbatim>\<open>SetMute\<close> calls made so far), followed by the globals of
  \<^verbatim>\<open>EventHookProcessID.cpp\<close>. The \<^verbatim>\<open>unordered_multimap\<close> \<open>sessionsList\<close> is an
  association list in insertion order, the \<^verbatim>\<open>std::queue\<close> a list with its front
  first. \<open>comInit\<close> counts the COM initialisations of the tracker thread that are not
  yet undone, \<open>managerRefs\<close> its references to the session manager, and
  \<open>sessionNotification\<close> says whether its session-created callback is registered.

  Left out are the printing, the critical section and the events and barrier that
  synchronise the threads (the model runs one call at a time), and the reference
  count of the enumerator.
\<close>

record state =
  caps :: "handle \<Rightarrow> session_caps"
  muted :: "handle \<Rightarrow> bool"
  refCount :: "handle \<Rightarrow> int"
  listening :: "handle \<Rightarrow> bool"
  setMuteCalls :: "(handle \<times> bool) list"
  oldProcessId :: DWORD
  sessionsList :: "(DWORD \<times> handle) list"
  sessionIdSet :: "string set"
  eventQueue :: "(DWORD \<times> DWORD) list"
  comInit :: int
  managerRefs :: int
  sessionNotification :: bool

definition AddRef :: "handle \<Rightarrow> state \<Rightarrow> state" where
  "AddRef h st = st\<lparr>refCount := (refCount st)(h := refCount st h + 1)\<rparr>"

definition Release :: "handle \<Rightarrow> state \<Rightarrow> state" where
  "Release h st = st\<lparr>refCount := (refCount st)(h := refCount st h - 1)\<rparr>"

definition SetMute :: "handle \<Rightarrow> bool \<Rightarrow> state \<Rightarrow> HRESULT \<times> state" where
  "SetMute h b st =
     (SetMute_result (caps st h),
      st\<lparr>setMuteCalls := setMuteCalls st @ [(h, b)],
         muted := (if SetMute_result (caps st h) = S_OK then (muted st)(h := b) else muted st)\<rparr>)"

section \<open>SwitchMuteStates\<close>

definition count_key :: "DWORD \<Rightarrow> (DWORD \<times> handle) list \<Rightarrow> nat" where
  "count_key k m = length (filter (\<lambda>e. fst e = k) m)"

definition equal_range :: "DWORD \<Rightarrow> (DWORD \<times> handle) list \<Rightarrow> handle list" where
  "equal_range k m = map snd (filter (\<lambda>e. fst e = k) m)"

text \<open>
  The body of both loops of \<^verbatim>\<open>SwitchMuteStates\<close>: query the volume interface, and
  when the pointer is not null call \<^verbatim>\<open>SetMute\<close> and release it. Both results are
  ignored by the source.
\<close>

definition set_one :: "bool \<Rightarrow> handle \<Rightarrow> state \<Rightarrow> state" where
  "set_one b h st =
     (if QueryInterface_ISimpleAudioVolume (caps st h) = S_OK
      then Release h (snd (SetMute h b (AddRef h st)))
      else st)"

fun set_range :: "bool \<Rightarrow> handle list \<Rightarrow> state \<Rightarrow> state" where
  "set_range b [] st = st"
| "set_range b (h # hs) st = set_range b hs (set_one b h st)"

definition SwitchMuteStates :: "DWORD \<Rightarrow> DWORD \<Rightarrow> state \<Rightarrow> state" where
  "SwitchMuteStates oldProc newProc st =
     (let st1 = (if count_key oldProc (sessionsList st) \<noteq> 0
                 then set_range True (equal_range oldProc (sessionsList st)) st
                 else st);
          st2 = (if count_key newProc (sessionsList st1) \<noteq> 0
                 then set_range False (equal_range newProc (sessionsList st1)) st1
                 else st1)
      in st2)"

text \<open>A session whose volume interface is obtained and whose \<^verbatim>\<open>SetMute\<close> succeeds.\<close>

definition responsive :: "state \<Rightarrow> handle \<Rightarrow> bool" where
  "responsive st h =
     (QueryInterface_ISimpleAudioVolume (caps st h) = S_OK \<and> SetMute_result (caps st h) = S_OK)"


section \<open>AddAudioSession and the creation callback\<close>

text \<open>
  \<^verbatim>\<open>std::to_wstring\<close> of an unsigned value: its decimal digits. Wide strings are
  modelled as strings.
\<close>

fun decimal :: "nat \<Rightarrow> string" where
  "decimal n =
     (if n < 10 then [''0123456789'' ! n]
      else decimal (n div 10) @ [''0123456789'' ! (n mod 10)])"

declare decimal.simps [simp del]

definition to_wstring :: "DWORD \<Rightarrow> string" where
  "to_wstring d = decimal (unat d)"

definition full_session_id :: "DWORD \<Rightarrow> string \<Rightarrow> string \<Rightarrow> string" where
  "full_session_id sessionProcessId pswSessionId pswSessionInstance =
     to_wstring sessionProcessId @ ''!'' @ pswSessionId @ ''!'' @ pswSessionInstance"

text \<open>
  \<^verbatim>\<open>AddAudioSession\<close> of \<^verbatim>\<open>EventHookProcessID.cpp\<close>. Every early \<^verbatim>\<open>return\<close> of the
  source is a branch; the printing and the freeing of the three strings are left out.
  The identifier is put into \<open>sessionIdSet\<close> before the event sink is registered, and
  the session is put into \<open>sessionsList\<close> (with \<^verbatim>\<open>AddRef\<close>) after it.
\<close>

definition AddAudioSession :: "handle \<Rightarrow> state \<Rightarrow> HRESULT \<times> state" where
  "AddAudioSession pSession st =
     (if pSession = 0 then (E_POINTER, st)
      else let c = caps st pSession in
      if GetDisplayName c \<noteq> S_OK then (GetDisplayName c, st)
      else if fst (GetSessionIdentifier c) \<noteq> S_OK then (fst (GetSessionIdentifier c), st)
      else if fst (GetSessionInstanceIdentifier c) \<noteq> S_OK
        then (fst (GetSessionInstanceIdentifier c), st)
      else let hr = fst (GetProcessId c); sessionProcessId = snd (GetProcessId c) in
      if hr \<noteq> S_OK \<and> hr \<noteq> AUDCLNT_S_NO_SINGLE_PROCESS then (hr, st)
      else let wstrFullSessionId =
                 full_session_id sessionProcessId (snd (GetSessionIdentifier c))
                   (snd (GetSessionInstanceIdentifier c)) in
      if wstrFullSessionId \<in> sessionIdSet st then (S_OK, st)
      else let st1 = st\<lparr>sessionIdSet := insert wstrFullSessionId (sessionIdSet st)\<rparr>;
               hr2 = RegisterAudioSessionNotification c;
               st2 = (if hr2 = S_OK then st1\<lparr>listening := (listening st1)(pSession := True)\<rparr>
                      else st1) in
      if hr2 \<noteq> S_OK \<and> hr2 \<noteq> E_POINTER then (hr2, st2)
      else let st3 = AddRef pSession st2;
               st4 = st3\<lparr>sessionsList := sessionsList st3 @ [(sessionProcessId, pSession)]\<rparr>
           in (hr2, st4))"

text \<open>
  \<^verbatim>\<open>CSessionNotifier::OnSessionCreated\<close>: the callback's own reference, obtained by
  \<^verbatim>\<open>QueryInterface\<close>, is released after \<^verbatim>\<open>AddAudioSession\<close> returns.
\<close>

definition OnSessionCreated :: "handle \<Rightarrow> state \<Rightarrow> HRESULT \<times> state" where
  "OnSessionCreated pNewSession st =
     (if pNewSession = 0 then (E_POINTER, st)
      else let hr = QueryInterface_IAudioSessionControl2 (caps st pNewSession) in
      if hr \<noteq> S_OK then (hr, st)
      else let r = AddAudioSession pNewSession (AddRef pNewSession st)
           in (fst r, Release pNewSession (snd r)))"

text \<open>How often a session object is held by \<open>sessionsList\<close>.\<close>

definition entries :: "handle \<Rightarrow> (DWORD \<times> handle) list \<Rightarrow> nat" where
  "entries h m = length (filter (\<lambda>e. snd e = h) m)"

section \<open>WinEventProc and the event queue\<close>

text \<open>
  One call of the hook: the arguments the source tests, and the process id that
  \<^verbatim>\<open>GetWindowThreadProcessId\<close> writes for the window.
\<close>

record win_event =
  event :: DWORD
  hwnd :: nat
  idObject :: "32 word"
  idChild :: "32 word"
  switchedProcessId :: DWORD

definition WinEventProc :: "win_event \<Rightarrow> state \<Rightarrow> state" where
  "WinEventProc e st =
     (if hwnd e \<noteq> 0 \<and> idObject e = OBJID_WINDOW \<and> idChild e = CHILDID_SELF \<and>
         event e = EVENT_SYSTEM_FOREGROUND
      then (if switchedProcessId e = oldProcessId st then st
            else st\<lparr>eventQueue := eventQueue st @ [(oldProcessId st, switchedProcessId e)],
                    oldProcessId := switchedProcessId e\<rparr>)
      else st)"

text \<open>The hook called once for each element of a sequence, in order.\<close>

fun callbacks :: "win_event list \<Rightarrow> state \<Rightarrow> state" where
  "callbacks [] st = st"
| "callbacks (e # es) st = callbacks es (WinEventProc e st)"

text \<open>Consecutive events chain: each starts at the process id the previous one ended at.\<close>

fun chained :: "DWORD \<Rightarrow> (DWORD \<times> DWORD) list \<Rightarrow> bool" where
  "chained p [] = True"
| "chained p (e # es) = (fst e = p \<and> chained (snd e) es)"

fun last_new :: "DWORD \<Rightarrow> (DWORD \<times> DWORD) list \<Rightarrow> DWORD" where
  "last_new p [] = p"
| "last_new p (e # es) = last_new (snd e) es"

text \<open>
  The inner loop of \<^verbatim>\<open>AudioThreadRoutine\<close>: while the queue is not empty, take its
  front, switch the mute states, pop.
\<close>

function AudioThread_drain :: "state \<Rightarrow> state" where
  "AudioThread_drain st =
     (case eventQueue st of
        [] \<Rightarrow> st
      | processIds # rest \<Rightarrow>
          AudioThread_drain
            ((SwitchMuteStates (fst processIds) (snd processIds) st)\<lparr>eventQueue := rest\<rparr>))"
  by pat_completeness auto
termination
  by (relation "measure (\<lambda>st. length (eventQueue st))") auto

declare AudioThread_drain.simps [simp del]

text \<open>The transitions of a sequence of events applied one after the other, first to last.\<close>

fun apply_events :: "(DWORD \<times> DWORD) list \<Rightarrow> state \<Rightarrow> state" where
  "apply_events [] st = st"
| "apply_events (e # es) st = apply_events es (SwitchMuteStates (fst e) (snd e) st)"

section \<open>The start of AudioThreadRoutine\<close>

text \<open>
  What the process-wide calls answer: COM initialisation, the three calls inside
  \<^verbatim>\<open>GetIAudioSessionManager2\<close>, the session manager's calls, and the enumerator,
  whose sessions are given as the list of the results of \<^verbatim>\<open>GetSession\<close> (its length
  is the count).
\<close>

record audio_system =
  CoInitializeEx :: HRESULT
  CoCreateInstance :: HRESULT
  GetDefaultAudioEndpoint :: HRESULT
  Activate :: HRESULT
  RegisterSessionNotification :: HRESULT
  GetSessionEnumerator :: HRESULT
  GetCount :: HRESULT
  GetSession :: "(HRESULT \<times> handle) list"

text \<open>
  \<^verbatim>\<open>GetIAudioSessionManager2\<close>; the two flags say whether \<^verbatim>\<open>ppSessionManager\<close> is
  null and whether it points to a pointer that is not null.
\<close>

definition GetIAudioSessionManager2 ::
    "audio_system \<Rightarrow> bool \<Rightarrow> bool \<Rightarrow> state \<Rightarrow> HRESULT \<times> state" where
  "GetIAudioSessionManager2 sys pp_null target_set st =
     (if pp_null then (E_POINTER, st)
      else if target_set then (E_UNEXPECTED, st)
      else if CoCreateInstance sys \<noteq> S_OK then (CoCreateInstance sys, st)
      else if GetDefaultAudioEndpoint sys \<noteq> S_OK then (GetDefaultAudioEndpoint sys, st)
      else (Activate sys,
            if Activate sys = S_OK then st\<lparr>managerRefs := managerRefs st + 1\<rparr> else st))"

definition CoUninitialize :: "state \<Rightarrow> state" where
  "CoUninitialize st = st\<lparr>comInit := comInit st - 1\<rparr>"

definition ReleaseManager :: "state \<Rightarrow> state" where
  "ReleaseManager st = st\<lparr>managerRefs := managerRefs st - 1\<rparr>"

definition UnregisterSessionNotification :: "state \<Rightarrow> state" where
  "UnregisterSessionNotification st = st\<lparr>sessionNotification := False\<rparr>"

text \<open>
  The loop \<^verbatim>\<open>for(auto p : sessionsList)\<close> of the unwinding: the event sink is
  unregistered from each session and the session released. The loop variable is a
  copy, so setting its pointer to null leaves \<open>sessionsList\<close> as it is.
\<close>

fun release_all :: "(DWORD \<times> handle) list \<Rightarrow> state \<Rightarrow> state" where
  "release_all [] st = st"
| "release_all (p # ps) st =
     release_all ps (Release (snd p) (st\<lparr>listening := (listening st)(snd p := False)\<rparr>))"

text \<open>
  How the thread can end before it is ready: it returns an exit code, or it applies
  \<^verbatim>\<open>delete\<close> to an object with automatic storage, after which its behaviour is
  undefined.
\<close>

datatype thread_end = Exit DWORD | Delete_of_automatic_object

text \<open>
  The event sink \<^verbatim>\<open>audioSessionEvents\<close> is a local variable of \<^verbatim>\<open>AudioThreadRoutine\<close>; it
  is represented by its reference count \<^verbatim>\<open>_cRef\<close>, which the constructor sets to 1.
  \<^verbatim>\<open>CAudioSessionEvents::Release\<close> decrements the count and runs \<^verbatim>\<open>delete this\<close> when it
  has reached 0; the result is the new count and whether \<^verbatim>\<open>delete this\<close> ran. The
  references that the audio subsystem holds on the sink while it is registered on a
  session are not counted: every registration is undone by \<open>release_all\<close> before the
  thread releases the sink.
\<close>

definition CAudioSessionEvents_new :: int where
  "CAudioSessionEvents_new = 1"

definition CAudioSessionEvents_Release :: "int \<Rightarrow> int \<times> bool" where
  "CAudioSessionEvents_Release cRef = (cRef - 1, cRef - 1 = 0)"

text \<open>
  The unwinding of the branches that return 5, 6 and 7: the session notification is
  unregistered, the session manager released, the sessions of \<open>sessionsList\<close>
  released, then \<^verbatim>\<open>pAudioEvents -> Release()\<close> is called on the local sink, and only after
  it come \<^verbatim>\<open>CoUninitialize\<close> and the \<^verbatim>\<open>return\<close>.
\<close>

definition unwind :: "DWORD \<Rightarrow> int \<Rightarrow> state \<Rightarrow> thread_end \<times> state" where
  "unwind code audioSessionEvents st =
     (let st1 = release_all (sessionsList st)
                  (ReleaseManager (UnregisterSessionNotification st))
      in if snd (CAudioSessionEvents_Release audioSessionEvents)
         then (Delete_of_automatic_object, st1)
         else (Exit code, CoUninitialize st1))"

text \<open>
  The enumeration loop, with the \<^verbatim>\<open>HRESULT\<close> it leaves in \<open>hr\<close>: each \<^verbatim>\<open>break\<close> is a
  branch that returns.
\<close>

fun enumerate_sessions :: "(HRESULT \<times> handle) list \<Rightarrow> HRESULT \<Rightarrow> state \<Rightarrow> HRESULT \<times> state" where
  "enumerate_sessions [] hr st = (hr, st)"
| "enumerate_sessions (g # rest) hr st =
     (if fst g \<noteq> S_OK then (fst g, st)
      else let pCtrl = snd g;
               st1 = AddRef pCtrl st;
               qhr = QueryInterface_IAudioSessionControl2 (caps st1 pCtrl);
               st2 = (if qhr = S_OK then AddRef pCtrl st1 else st1);
               st3 = Release pCtrl st2 in
      if qhr \<noteq> S_OK then (qhr, st3)
      else let r = AddAudioSession pCtrl st3;
               st4 = Release pCtrl (snd r) in
      if fst r \<noteq> S_OK \<and> fst r \<noteq> AUDCLNT_S_NO_SINGLE_PROCESS then (fst r, st4)
      else enumerate_sessions rest (fst r) st4)"

text \<open>
  \<^verbatim>\<open>AudioThreadRoutine\<close> up to the point where it signals that it is ready. The result
  is \<open>None\<close> when the start succeeds, \<open>Some (Exit code)\<close> when the thread returns
  \<open>code\<close> before that point, and \<open>Some Delete_of_automatic_object\<close> when it deletes its
  local sink; the state is then the one in which that happens.
\<close>

definition AudioThreadRoutine_start ::
    "audio_system \<Rightarrow> state \<Rightarrow> thread_end option \<times> state" where
  "AudioThreadRoutine_start sys st =
     (let audioSessionEvents = CAudioSessionEvents_new in
      if CoInitializeEx sys \<noteq> S_OK
      then (Some (Exit 2), if CoInitializeEx sys = S_FALSE
                           then CoUninitialize (st\<lparr>comInit := comInit st + 1\<rparr>) else st)
      else let st1 = st\<lparr>comInit := comInit st + 1\<rparr>;
               m = GetIAudioSessionManager2 sys False False st1 in
      if fst m \<noteq> S_OK then (Some (Exit 3), CoUninitialize (snd m))
      else if RegisterSessionNotification sys \<noteq> S_OK
        then (Some (Exit 4), CoUninitialize (ReleaseManager (snd m)))
      else let st2 = (snd m)\<lparr>sessionNotification := True\<rparr> in
      if GetSessionEnumerator sys \<noteq> S_OK
        then (let u = unwind 5 audioSessionEvents st2 in (Some (fst u), snd u))
      else if GetCount sys \<noteq> S_OK
        then (let u = unwind 6 audioSessionEvents st2 in (Some (fst u), snd u))
      else let r = enumerate_sessions (GetSession sys) (GetCount sys) st2 in
      if fst r \<noteq> S_OK \<and> fst r \<noteq> AUDCLNT_S_NO_SINGLE_PROCESS
        then (let u = unwind 7 audioSessionEvents (snd r) in (Some (fst u), snd u))
      else (None, snd r))"

section \<open>AutoMuteRoutine of the APC variant\<close>

text \<open>
  The loop of \<^verbatim>\<open>AutoMuteRoutine\<close> in \<^verbatim>\<open>EventHookProcessID_APC.cpp\<close> over the sessions
  of the enumerator, with the value it leaves in \<open>hr\<close>. A \<^verbatim>\<open>break\<close> returns, a
  \<^verbatim>\<open>continue\<close> goes on with the rest. \<open>set_session_mute\<close> is the common text of the
  two branches that set the mute state: the volume interface is queried, the session
  control released, \<^verbatim>\<open>SetMute\<close> called and the volume interface released.
\<close>

definition set_session_mute :: "bool \<Rightarrow> handle \<Rightarrow> state \<Rightarrow> HRESULT \<times> state" where
  "set_session_mute b pCtrl2 st =
     (let vhr = QueryInterface_ISimpleAudioVolume (caps st pCtrl2);
          st1 = Release pCtrl2 (if vhr = S_OK then AddRef pCtrl2 st else st) in
      if vhr \<noteq> S_OK then (vhr, st1)
      else let s = SetMute pCtrl2 b st1 in (fst s, Release pCtrl2 (snd s)))"

fun AutoMute_loop ::
    "DWORD \<Rightarrow> DWORD \<Rightarrow> (HRESULT \<times> handle) list \<Rightarrow> HRESULT \<Rightarrow> state \<Rightarrow> HRESULT \<times> state" where
  "AutoMute_loop newProcId prevProcId [] hr st = (hr, st)"
| "AutoMute_loop newProcId prevProcId (g # rest) hr st =
     (if fst g \<noteq> S_OK then (fst g, st)
      else let pCtrl = snd g;
               st1 = AddRef pCtrl st;
               c = caps st1 pCtrl;
               qhr = QueryInterface_IAudioSessionControl2 c;
               st2 = (if qhr = S_OK then AddRef pCtrl st1 else st1);
               st3 = Release pCtrl st2 in
      if qhr \<noteq> S_OK then (qhr, st3)
      else if IsSystemSoundsSession c = S_OK
        then AutoMute_loop newProcId prevProcId rest S_OK (Release pCtrl st3)
      else if IsSystemSoundsSession c \<noteq> S_FALSE
        then (IsSystemSoundsSession c, Release pCtrl st3)
      else let phr = fst (GetProcessId c); procId = snd (GetProcessId c) in
      if phr = AUDCLNT_S_NO_SINGLE_PROCESS
        then AutoMute_loop newProcId prevProcId rest S_OK (Release pCtrl st3)
      else if phr \<noteq> S_OK then (phr, Release pCtrl st3)
      else if procId = newProcId then
        (let s = set_session_mute False pCtrl st3 in
         if fst s \<noteq> S_OK then s
         else AutoMute_loop newProcId prevProcId rest (fst s) (snd s))
      else if procId = prevProcId then
        (let s = set_session_mute True pCtrl st3 in
         if fst s \<noteq> S_OK then s
         else AutoMute_loop newProcId prevProcId rest (fst s) (snd s))
      else AutoMute_loop newProcId prevProcId rest phr (Release pCtrl st3))"

text \<open>
  \<^verbatim>\<open>AutoMuteRoutine\<close>; \<open>pSessionMgr\<close> is \<open>None\<close> for the null pointer.
\<close>

definition AutoMuteRoutine ::
    "audio_system option \<Rightarrow> DWORD \<Rightarrow> DWORD \<Rightarrow> state \<Rightarrow> HRESULT \<times> state" where
  "AutoMuteRoutine pSessionMgr newProcId prevProcId st =
     (if newProcId = 0 \<or> prevProcId = 0 then (E_INVALIDARG, st)
      else if newProcId = prevProcId then (S_FALSE, st)
      else case pSessionMgr of
        None \<Rightarrow> (E_POINTER, st)
      | Some mgr \<Rightarrow>
          if GetSessionEnumerator mgr \<noteq> S_OK then (GetSessionEnumerator mgr, st)
          else if GetCount mgr \<noteq> S_OK then (GetCount mgr, st)
          else let r = AutoMute_loop newProcId prevProcId (GetSession mgr) (GetCount mgr) st
               in (if fst r = AUDCLNT_S_NO_SINGLE_PROCESS then S_OK else fst r, snd r))"

text \<open>
  \<^verbatim>\<open>APCAutoMuteRoutine\<close> with its globals. The first component of the result is
  \<open>Some hr\<close> when the routine ends the thread with exit code \<open>hr\<close>.
\<close>

record apc_globals =
  gPrevProcessId :: DWORD
  gbEndProgram :: bool
  gpSessionMgr :: "audio_system option"

definition APCAutoMuteRoutine ::
    "DWORD \<Rightarrow> apc_globals \<Rightarrow> state \<Rightarrow> HRESULT option \<times> apc_globals \<times> state" where
  "APCAutoMuteRoutine newProcId g st =
     (if newProcId = gPrevProcessId g then (None, g, st)
      else let prevProcId = gPrevProcessId g;
               g1 = g\<lparr>gPrevProcessId := newProcId\<rparr>;
               r = AutoMuteRoutine (gpSessionMgr g1) newProcId prevProcId st in
      if fst r \<noteq> S_OK
      then (Some (fst r), g1\<lparr>gbEndProgram := True\<rparr>, CoUninitialize (ReleaseManager (snd r)))
      else (None, g1, snd r))"

section \<open>Concrete sessions and states\<close>

text \<open>A session of one process on which every call succeeds.\<close>

definition plain_session :: "DWORD \<Rightarrow> string \<Rightarrow> string \<Rightarrow> session_caps" where
  "plain_session pid sid inst =
     \<lparr>GetDisplayName = S_OK, GetSessionIdentifier = (S_OK, sid),
      GetSessionInstanceIdentifier = (S_OK, inst), GetProcessId = (S_OK, pid),
      IsSystemSoundsSession = S_FALSE, RegisterAudioSessionNotification = S_OK,
      QueryInterface_IAudioSessionControl2 = S_OK, QueryInterface_ISimpleAudioVolume = S_OK,
      SetMute_result = S_OK\<rparr>"

text \<open>The globals as the source initialises them, over a given audio subsystem.\<close>

definition initial_state :: "(handle \<Rightarrow> session_caps) \<Rightarrow> state" where
  "initial_state c =
     \<lparr>caps = c, muted = (\<lambda>h. False), refCount = (\<lambda>h. 0), listening = (\<lambda>h. False),
      setMuteCalls = [], oldProcessId = 0, sessionsList = [], sessionIdSet = {},
      eventQueue = [], comInit = 0, managerRefs = 0, sessionNotification = False\<rparr>"

text \<open>All calls of the process-wide interfaces succeed, over the given sessions.\<close>

definition working_system :: "handle list \<Rightarrow> audio_system" where
  "working_system hs =
     \<lparr>CoInitializeEx = S_OK, CoCreateInstance = S_OK, GetDefaultAudioEndpoint = S_OK,
      Activate = S_OK, RegisterSessionNotification = S_OK, GetSessionEnumerator = S_OK,
      GetCount = S_OK, GetSession = map (\<lambda>h. (S_OK, h)) hs\<rparr>"

text \<open>A foreground change of a window that belongs to the given process.\<close>

definition foreground :: "DWORD \<Rightarrow> win_event" where
  "foreground pid =
     \<lparr>event = EVENT_SYSTEM_FOREGROUND, hwnd = 1, idObject = OBJID_WINDOW,
      idChild = CHILDID_SELF, switchedProcessId = pid\<rparr>"

text \<open>
  Three sessions of the processes 5, 7 and 9, registered under their process ids; the
  sessions of 7 and 9 are muted.
\<close>

definition three_sessions :: "handle \<Rightarrow> session_caps" where
  "three_sessions h =
     (if h = 1 then plain_session 5 ''a'' ''i''
      else if h = 2 then plain_session 7 ''b'' ''i''
      else plain_session 9 ''c'' ''i'')"

definition three_registered :: state where
  "three_registered =
     (initial_state three_sessions)
       \<lparr>muted := (\<lambda>h. h = 2 \<or> h = 3), sessionsList := [(5, 1), (7, 2), (9, 3)],
        sessionIdSet := {''5!a!i'', ''7!b!i'', ''9!c!i''}\<rparr>"

text \<open>
  The identifier under which \<^verbatim>\<open>AddAudioSession\<close> looks a session up in \<open>sessionIdSet\<close>:
  process id, session identifier and session instance identifier, as the session
  reports them.
\<close>

definition session_identity :: "state \<Rightarrow> handle \<Rightarrow> string" where
  "session_identity st h =
     full_session_id (snd (GetProcessId (caps st h))) (snd (GetSessionIdentifier (caps st h)))
       (snd (GetSessionInstanceIdentifier (caps st h)))"

text \<open>A session of process 7 on which registering the event sink fails.\<close>

definition failing_registration :: "handle \<Rightarrow> session_caps" where
  "failing_registration h =
     (plain_session 7 ''s'' ''i'')\<lparr>RegisterAudioSessionNotification := E_FAIL\<rparr>"

text \<open>
  A session that spans several processes: \<^verbatim>\<open>GetProcessId\<close> answers
  \<^verbatim>\<open>AUDCLNT_S_NO_SINGLE_PROCESS\<close> and writes the id of the process that created it.
\<close>

definition cross_process :: "handle \<Rightarrow> session_caps" where
  "cross_process h =
     (plain_session 7 ''s'' ''i'')\<lparr>GetProcessId := (AUDCLNT_S_NO_SINGLE_PROCESS, 7)\<rparr>"

text \<open>
  The sessions on which \<^verbatim>\<open>AutoMuteRoutine\<close> never calls \<^verbatim>\<open>SetMute\<close>: the system sounds
  session, a session whose process id is not obtained with \<^verbatim>\<open>S_OK\<close> (a cross-process
  session among them), and a session of a process other than the two of the switch.
\<close>

definition passed_over :: "DWORD \<Rightarrow> DWORD \<Rightarrow> state \<Rightarrow> handle \<Rightarrow> bool" where
  "passed_over newProcId prevProcId st h =
     (IsSystemSoundsSession (caps st h) = S_OK \<or> fst (GetProcessId (caps st h)) \<noteq> S_OK \<or>
      (snd (GetProcessId (caps st h)) \<noteq> newProcId \<and> snd (GetProcessId (caps st h)) \<noteq> prevProcId))"

text \<open>The three registered sessions with the batch of the three focus changes queued.\<close>

definition three_queued :: state where
  "three_queued = three_registered\<lparr>eventQueue := [(0, 5), (5, 7), (7, 9)]\<rparr>"

text \<open>
  Five sessions of process 5; \<^verbatim>\<open>SetMute\<close> fails on the third. They are registered under
  their process id in \<open>five_registered\<close>.
\<close>


definition five_sessions :: "handle \<Rightarrow> session_caps" where
  "five_sessions h =
     (if h = 3 then (plain_session 5 ''c'' ''i'')\<lparr>SetMute_result := E_FAIL\<rparr>
      else plain_session 5 ''a'' ''i'')"

definition five_registered :: state where
  "five_registered =
     (initial_state five_sessions)\<lparr>sessionsList := [(5, 1), (5, 2), (5, 3), (5, 4), (5, 5)]\<rparr>"

text \<open>The globals of the APC variant after a window of process 5 had the focus.\<close>

definition apc_example :: apc_globals where
  "apc_example = \<lparr>gPrevProcessId = 5, gbEndProgram = False, gpSessionMgr = Some (working_system [1])\<rparr>"

text \<open>
  The references held on a session object beyond those of its entries in
  \<open>sessionsList\<close>.
\<close>

definition surplus :: "state \<Rightarrow> handle \<Rightarrow> int" where
  "surplus st h = refCount st h - int (entries h (sessionsList st))"

text \<open>The state in which the enumeration loop starts.\<close>

definition registered_state :: "state \<Rightarrow> state" where
  "registered_state st =
     st\<lparr>comInit := comInit st + 1, managerRefs := managerRefs st + 1, sessionNotification := True\<rparr>"

text \<open>
  Sessions of process 5 that report one identifier, except the second: a session of
  process 7 on which registering the event sink fails.
\<close>

definition second_fails :: "handle \<Rightarrow> session_caps" where
  "second_fails h =
     (if h = 2 then (plain_session 7 ''b'' ''i'')\<lparr>RegisterAudioSessionNotification := E_FAIL\<rparr>
      else plain_session 5 ''a'' ''i'')"

text \<open>
  The registry as \<^verbatim>\<open>AddAudioSession\<close> builds it: every session object has one entry,
  under the process id it reports, and its identifier is in \<open>sessionIdSet\<close>.
\<close>

definition registry_ok :: "state \<Rightarrow> bool" where
  "registry_ok st =
     (distinct (map snd (sessionsList st)) \<and>
      list_all (\<lambda>e. session_identity st (snd e) \<in> sessionIdSet st \<and>
                     fst e = snd (GetProcessId (caps st (snd e)))) (sessionsList st))"

text \<open>
  An enumerated session on which every call of the enumeration loop succeeds.
\<close>

definition clean :: "state \<Rightarrow> HRESULT \<times> handle \<Rightarrow> bool" where
  "clean st g =
     (fst g = S_OK \<and> snd g \<noteq> 0 \<and>
      QueryInterface_IAudioSessionControl2 (caps st (snd g)) = S_OK \<and>
      GetDisplayName (caps st (snd g)) = S_OK \<and>
      fst (GetSessionIdentifier (caps st (snd g))) = S_OK \<and>
      fst (GetSessionInstanceIdentifier (caps st (snd g))) = S_OK \<and>
      (fst (GetProcessId (caps st (snd g))) = S_OK \<or>
       fst (GetProcessId (caps st (snd g))) = AUDCLNT_S_NO_SINGLE_PROCESS) \<and>
      RegisterAudioSessionNotification (caps st (snd g)) = S_OK)"

section \<open>Properties of SwitchMuteStates\<close>

lemma set_one_frame [simp]:
  "caps (set_one b h st) = caps st"
  "sessionsList (set_one b h st) = sessionsList st"
  "sessionIdSet (set_one b h st) = sessionIdSet st"
  "eventQueue (set_one b h st) = eventQueue st"
  "oldProcessId (set_one b h st) = oldProcessId st"
  "refCount (set_one b h st) = refCount st"
  "listening (set_one b h st) = listening st"
  "comInit (set_one b h st) = comInit st"
  "managerRefs (set_one b h st) = managerRefs st"
  "sessionNotification (set_one b h st) = sessionNotification st"
  by (auto simp: set_one_def SetMute_def AddRef_def Release_def)

lemma set_one_muted:
  "muted (set_one b h st) k = (if k = h \<and> responsive st h then b else muted st k)"
  by (simp add: set_one_def SetMute_def AddRef_def Release_def responsive_def)

lemma set_one_calls:
  "setMuteCalls (set_one b h st) =
     setMuteCalls st @ (if QueryInterface_ISimpleAudioVolume (caps st h) = S_OK then [(h, b)] else [])"
  by (simp add: set_one_def SetMute_def AddRef_def Release_def)

lemma set_range_frame [simp]:
  "caps (set_range b hs st) = caps st"
  "sessionsList (set_range b hs st) = sessionsList st"
  "sessionIdSet (set_range b hs st) = sessionIdSet st"
  "eventQueue (set_range b hs st) = eventQueue st"
  "oldProcessId (set_range b hs st) = oldProcessId st"
  "refCount (set_range b hs st) = refCount st"
  "listening (set_range b hs st) = listening st"
  "comInit (set_range b hs st) = comInit st"
  "managerRefs (set_range b hs st) = managerRefs st"
  "sessionNotification (set_range b hs st) = sessionNotification st"
  by (induction hs arbitrary: st; simp)+

lemma responsive_set_one [simp]: "responsive (set_one b h st) k = responsive st k"
  by (simp add: responsive_def)

lemma set_range_muted:
  "muted (set_range b hs st) k = (if k \<in> set hs \<and> responsive st k then b else muted st k)"
proof (induction hs arbitrary: st)
  case Nil
  then show ?case by simp
next
  case (Cons h hs)
  show ?case
    by (auto simp: Cons.IH set_one_muted)
qed

lemma responsive_set_range [simp]: "responsive (set_range b hs st) k = responsive st k"
  by (simp add: responsive_def)

lemma set_range_calls:
  "setMuteCalls (set_range b hs st) =
     setMuteCalls st @
     map (\<lambda>h. (h, b)) (filter (\<lambda>h. QueryInterface_ISimpleAudioVolume (caps st h) = S_OK) hs)"
  by (induction hs arbitrary: st) (simp_all add: set_one_calls)

lemma count_key_zero: "count_key k m = 0 \<longleftrightarrow> equal_range k m = []"
  by (simp add: count_key_def equal_range_def)

lemma SwitchMuteStates_eq:
  "SwitchMuteStates a b st =
     set_range False (equal_range b (sessionsList st))
       (set_range True (equal_range a (sessionsList st)) st)"
proof -
  have one: "\<And>v k s. (if count_key k (sessionsList s) \<noteq> 0
                then set_range v (equal_range k (sessionsList s)) s else s)
             = set_range v (equal_range k (sessionsList s)) s"
    by (simp add: count_key_zero)
  show ?thesis
    unfolding SwitchMuteStates_def Let_def one by simp
qed

lemma SwitchMuteStates_frame [simp]:
  "caps (SwitchMuteStates a b st) = caps st"
  "sessionsList (SwitchMuteStates a b st) = sessionsList st"
  "sessionIdSet (SwitchMuteStates a b st) = sessionIdSet st"
  "eventQueue (SwitchMuteStates a b st) = eventQueue st"
  "oldProcessId (SwitchMuteStates a b st) = oldProcessId st"
  "refCount (SwitchMuteStates a b st) = refCount st"
  "listening (SwitchMuteStates a b st) = listening st"
  "comInit (SwitchMuteStates a b st) = comInit st"
  "managerRefs (SwitchMuteStates a b st) = managerRefs st"
  "sessionNotification (SwitchMuteStates a b st) = sessionNotification st"
  by (simp_all add: SwitchMuteStates_eq)

lemma SwitchMuteStates_muted:
  "muted (SwitchMuteStates a b st) k =
     (if k \<in> set (equal_range b (sessionsList st)) \<and> responsive st k then False
      else if k \<in> set (equal_range a (sessionsList st)) \<and> responsive st k then True
      else muted st k)"
  by (simp add: SwitchMuteStates_eq set_range_muted)

lemma SwitchMuteStates_calls:
  "setMuteCalls (SwitchMuteStates a b st) =
     setMuteCalls st @
     map (\<lambda>h. (h, True))
       (filter (\<lambda>h. QueryInterface_ISimpleAudioVolume (caps st h) = S_OK)
          (equal_range a (sessionsList st))) @
     map (\<lambda>h. (h, False))
       (filter (\<lambda>h. QueryInterface_ISimpleAudioVolume (caps st h) = S_OK)
          (equal_range b (sessionsList st)))"
  by (simp add: SwitchMuteStates_eq set_range_calls)

lemma equal_range_mem: "h \<in> set (equal_range k m) \<longleftrightarrow> (k, h) \<in> set m"
  by (force simp: equal_range_def)

lemma distinct_owner:
  "distinct (map snd m) \<Longrightarrow> (a, h) \<in> set m \<Longrightarrow> (b, h) \<in> set m \<Longrightarrow> a = b"
proof (induction m)
  case Nil
  then show ?case by simp
next
  case (Cons e m)
  then show ?case by (force simp: image_iff)
qed

lemma equal_range_disjoint:
  "distinct (map snd m) \<Longrightarrow> a \<noteq> b \<Longrightarrow> h \<in> set (equal_range a m) \<Longrightarrow> h \<notin> set (equal_range b m)"
  using distinct_owner by (fastforce simp: equal_range_mem)

text \<open>
  C1. Let \<open>A\<close> and \<open>B\<close> be distinct process ids, let every session object be registered
  once (so that a session belongs to one process key), and let the sessions of \<open>A\<close> and
  \<open>B\<close> answer the volume query and \<^verbatim>\<open>SetMute\<close> with success. Then after
  \<open>SwitchMuteStates A B\<close> every session of \<open>A\<close> is muted and every session of \<open>B\<close> is
  not; when \<open>B\<close> has no session, the only \<^verbatim>\<open>SetMute\<close> calls made are the mute calls for
  the sessions of \<open>A\<close>, so no unmute call is made; and the mute state of every session
  registered under any other process id is unchanged. The ids need not be non-zero.
\<close>

theorem SwitchMuteStates_transition:
  assumes "A \<noteq> B"
    and "distinct (map snd (sessionsList st))"
    and "\<forall>h \<in> set (equal_range A (sessionsList st)) \<union> set (equal_range B (sessionsList st)).
           responsive st h"
  shows "(\<forall>h \<in> set (equal_range A (sessionsList st)). muted (SwitchMuteStates A B st) h) \<and>
         (\<forall>h \<in> set (equal_range B (sessionsList st)). \<not> muted (SwitchMuteStates A B st) h) \<and>
         (equal_range B (sessionsList st) = [] \<longrightarrow>
            setMuteCalls (SwitchMuteStates A B st) =
              setMuteCalls st @ map (\<lambda>h. (h, True)) (equal_range A (sessionsList st))) \<and>
         (\<forall>p h. (p, h) \<in> set (sessionsList st) \<and> p \<noteq> A \<and> p \<noteq> B \<longrightarrow>
            muted (SwitchMuteStates A B st) h = muted st h)"
proof -
  have old: "muted (SwitchMuteStates A B st) h" if "h \<in> set (equal_range A (sessionsList st))" for h
  proof -
    have "h \<notin> set (equal_range B (sessionsList st))"
      using equal_range_disjoint [OF assms(2) assms(1) that] .
    moreover have "responsive st h"
      using assms(3) that by simp
    ultimately show ?thesis
      using that by (simp add: SwitchMuteStates_muted)
  qed
  have new: "\<not> muted (SwitchMuteStates A B st) h" if "h \<in> set (equal_range B (sessionsList st))" for h
  proof -
    have "responsive st h"
      using assms(3) that by simp
    then show ?thesis
      using that by (simp add: SwitchMuteStates_muted)
  qed
  have volume: "filter (\<lambda>h. QueryInterface_ISimpleAudioVolume (caps st h) = S_OK)
                 (equal_range A (sessionsList st)) = equal_range A (sessionsList st)"
    using assms(3) by (simp add: responsive_def filter_id_conv)
  have calls: "equal_range B (sessionsList st) = [] \<longrightarrow>
            setMuteCalls (SwitchMuteStates A B st) =
              setMuteCalls st @ map (\<lambda>h. (h, True)) (equal_range A (sessionsList st))"
    by (simp add: SwitchMuteStates_calls volume)
  have others: "muted (SwitchMuteStates A B st) h = muted st h"
    if "(p, h) \<in> set (sessionsList st)" "p \<noteq> A" "p \<noteq> B" for p h
  proof -
    have "(A, h) \<notin> set (sessionsList st)" "(B, h) \<notin> set (sessionsList st)"
      using distinct_owner [OF assms(2) that(1)] that(2,3) by blast+
    then show ?thesis
      by (simp add: SwitchMuteStates_muted equal_range_mem)
  qed
  show ?thesis
    apply (intro conjI ballI allI impI)
       apply (erule old)
      apply (erule new)
    using calls apply simp
    using others apply blast
    done
qed

lemma three_registered_simps [simp]:
  "sessionsList three_registered = [(5, 1), (7, 2), (9, 3)]"
  "muted three_registered = (\<lambda>h. h = 2 \<or> h = 3)"
  "caps three_registered = three_sessions"
  "setMuteCalls three_registered = []"
  by (simp_all add: three_registered_def initial_state_def)

lemma three_sessions_responsive [simp]: "responsive three_registered h"
  by (simp add: responsive_def three_sessions_def plain_session_def)

theorem SwitchMuteStates_transition_witness:
  "(5 :: DWORD) \<noteq> 7 \<and> distinct (map snd (sessionsList three_registered)) \<and>
   muted (SwitchMuteStates 5 7 three_registered) 1 \<and>
   \<not> muted (SwitchMuteStates 5 7 three_registered) 2 \<and>
   muted (SwitchMuteStates 5 7 three_registered) 3 = muted three_registered 3 \<and>
   setMuteCalls (SwitchMuteStates 5 4 three_registered) = [(1, True)]"
proof -
  have ne: "(5 :: DWORD) \<noteq> 7" "(5 :: DWORD) \<noteq> 4"
    by simp_all
  have once: "distinct (map snd (sessionsList three_registered))"
    by simp
  have resp: "\<forall>h \<in> set (equal_range 5 (sessionsList three_registered)) \<union>
                    set (equal_range k (sessionsList three_registered)).
                responsive three_registered h" for k
    by simp
  have third: "muted (SwitchMuteStates 5 7 three_registered) 3 = muted three_registered 3"
    using SwitchMuteStates_transition [OF ne(1) once resp, THEN conjunct2, THEN conjunct2,
        THEN conjunct2, rule_format, of 9 3]
    by simp
  show ?thesis
    using SwitchMuteStates_transition [OF ne(1) once resp]
      SwitchMuteStates_transition [OF ne(2) once resp] ne once third
    by (simp add: equal_range_def)
qed

section \<open>Result codes and reference counting\<close>

lemma codes_distinct [simp]:
  "S_OK \<noteq> E_FAIL" "E_FAIL \<noteq> S_OK" "E_FAIL \<noteq> E_POINTER"
  "S_OK \<noteq> AUDCLNT_S_NO_SINGLE_PROCESS" "AUDCLNT_S_NO_SINGLE_PROCESS \<noteq> S_OK"
  "S_OK \<noteq> S_FALSE" "S_FALSE \<noteq> S_OK" "S_OK \<noteq> E_INVALIDARG" "E_INVALIDARG \<noteq> S_OK"
  "S_OK \<noteq> E_POINTER" "E_POINTER \<noteq> S_OK"
  "E_FAIL \<noteq> AUDCLNT_S_NO_SINGLE_PROCESS" "E_POINTER \<noteq> AUDCLNT_S_NO_SINGLE_PROCESS"
  by (simp_all add: S_OK_def E_FAIL_def E_POINTER_def S_FALSE_def E_INVALIDARG_def
      AUDCLNT_S_NO_SINGLE_PROCESS_def AUDCLNT_SUCCESS_def FACILITY_AUDCLNT_def)

lemma to_wstring_7 [simp]: "to_wstring 7 = ''7''"
  by (simp add: to_wstring_def decimal.simps)

lemma Release_AddRef [simp]: "Release h (AddRef h st) = st"
  by (simp add: Release_def AddRef_def)

lemma AddRef_frame [simp]:
  "caps (AddRef h st) = caps st"
  "muted (AddRef h st) = muted st"
  "sessionIdSet (AddRef h st) = sessionIdSet st"
  "sessionsList (AddRef h st) = sessionsList st"
  by (simp_all add: AddRef_def)

lemma Release_frame [simp]:
  "caps (Release h st) = caps st"
  "muted (Release h st) = muted st"
  "sessionIdSet (Release h st) = sessionIdSet st"
  "sessionsList (Release h st) = sessionsList st"
  by (simp_all add: Release_def)

section \<open>Registration\<close>

lemma AddAudioSession_known:
  "session_identity st h \<in> sessionIdSet st \<Longrightarrow> snd (AddAudioSession h st) = st"
  by (simp add: AddAudioSession_def session_identity_def Let_def)

lemma AddAudioSession_twice:
  "fst (AddAudioSession h st) = S_OK \<Longrightarrow>
   AddAudioSession h (snd (AddAudioSession h st)) = (S_OK, snd (AddAudioSession h st))"
  by (auto simp: AddAudioSession_def Let_def AddRef_def split: if_splits)

text \<open>
  C3. When the identifier of a session is already in \<open>sessionIdSet\<close>, \<^verbatim>\<open>AddAudioSession\<close>
  returns the state as it was: nothing is inserted into \<open>sessionsList\<close> or
  \<open>sessionIdSet\<close>, and no reference count changes. The same holds for the creation
  callback, which releases the reference it took. When the calls that read the
  identifier succeed, the result is \<^verbatim>\<open>S_OK\<close>.
\<close>

theorem AddAudioSession_duplicate:
  assumes "session_identity st pSession \<in> sessionIdSet st"
  shows "snd (AddAudioSession pSession st) = st \<and>
         snd (OnSessionCreated pSession st) = st \<and>
         (pSession \<noteq> 0 \<and> GetDisplayName (caps st pSession) = S_OK \<and>
          fst (GetSessionIdentifier (caps st pSession)) = S_OK \<and>
          fst (GetSessionInstanceIdentifier (caps st pSession)) = S_OK \<and>
          (fst (GetProcessId (caps st pSession)) = S_OK \<or>
           fst (GetProcessId (caps st pSession)) = AUDCLNT_S_NO_SINGLE_PROCESS)
          \<longrightarrow> fst (AddAudioSession pSession st) = S_OK)"
proof -
  have a: "snd (AddAudioSession pSession st) = st"
    using assms by (rule AddAudioSession_known)
  have "session_identity (AddRef pSession st) pSession \<in> sessionIdSet (AddRef pSession st)"
    using assms by (simp add: session_identity_def)
  then have "snd (AddAudioSession pSession (AddRef pSession st)) = AddRef pSession st"
    by (rule AddAudioSession_known)
  then have b: "snd (OnSessionCreated pSession st) = st"
    by (simp add: OnSessionCreated_def Let_def)
  have c: "pSession \<noteq> 0 \<and> GetDisplayName (caps st pSession) = S_OK \<and>
          fst (GetSessionIdentifier (caps st pSession)) = S_OK \<and>
          fst (GetSessionInstanceIdentifier (caps st pSession)) = S_OK \<and>
          (fst (GetProcessId (caps st pSession)) = S_OK \<or>
           fst (GetProcessId (caps st pSession)) = AUDCLNT_S_NO_SINGLE_PROCESS)
          \<longrightarrow> fst (AddAudioSession pSession st) = S_OK"
    using assms by (auto simp: AddAudioSession_def session_identity_def Let_def)
  show ?thesis
    using a b c by blast
qed

theorem AddAudioSession_duplicate_witness:
  "session_identity three_registered 1 \<in> sessionIdSet three_registered \<and>
   AddAudioSession 1 three_registered = (S_OK, three_registered) \<and>
   snd (OnSessionCreated 1 three_registered) = three_registered"
proof -
  have known: "session_identity three_registered 1 \<in> sessionIdSet three_registered"
    by (simp add: session_identity_def three_registered_def initial_state_def three_sessions_def
        plain_session_def full_session_id_def to_wstring_def decimal.simps)
  have calls: "GetDisplayName (caps three_registered 1) = S_OK \<and>
          fst (GetSessionIdentifier (caps three_registered 1)) = S_OK \<and>
          fst (GetSessionInstanceIdentifier (caps three_registered 1)) = S_OK \<and>
          fst (GetProcessId (caps three_registered 1)) = S_OK"
    by (simp add: three_sessions_def plain_session_def)
  show ?thesis
    using AddAudioSession_duplicate [OF known] known calls
    by (simp add: prod_eq_iff)
qed

text \<open>
  C4. A session of process 7 whose \<^verbatim>\<open>RegisterAudioSessionNotification\<close> fails with
  \<^verbatim>\<open>E_FAIL\<close>, added to the empty registry: \<^verbatim>\<open>AddAudioSession\<close> returns \<^verbatim>\<open>E_FAIL\<close> with the
  identifier in \<open>sessionIdSet\<close> and no entry in \<open>sessionsList\<close>. A second attempt is then
  answered as a duplicate and changes nothing.
\<close>

theorem AddAudioSession_failed_registration:
  "fst (AddAudioSession 1 (initial_state failing_registration)) = E_FAIL \<and>
   sessionIdSet (snd (AddAudioSession 1 (initial_state failing_registration))) = {''7!s!i''} \<and>
   sessionsList (snd (AddAudioSession 1 (initial_state failing_registration))) = [] \<and>
   AddAudioSession 1 (snd (AddAudioSession 1 (initial_state failing_registration))) =
     (S_OK, snd (AddAudioSession 1 (initial_state failing_registration)))"
  by (simp add: AddAudioSession_def Let_def initial_state_def failing_registration_def
      plain_session_def full_session_id_def)

section \<open>Cross-process sessions\<close>

text \<open>
  C2. A cross-process session created by process 7 is the only session of the system.
  The start of \<^verbatim>\<open>AudioThreadRoutine\<close> succeeds and registers it under the key 7; after
  the foreground changes to process 7 and then to process 9, draining the queue mutes
  it.
\<close>

theorem cross_process_session_registered_and_muted:
  "fst (GetProcessId (cross_process 1)) = AUDCLNT_S_NO_SINGLE_PROCESS \<and>
   fst (AudioThreadRoutine_start (working_system [1]) (initial_state cross_process)) = None \<and>
   sessionsList (snd (AudioThreadRoutine_start (working_system [1]) (initial_state cross_process)))
     = [(7, 1)] \<and>
   \<not> muted (snd (AudioThreadRoutine_start (working_system [1]) (initial_state cross_process))) 1 \<and>
   muted (AudioThread_drain (callbacks [foreground 7, foreground 9]
     (snd (AudioThreadRoutine_start (working_system [1]) (initial_state cross_process))))) 1"
  by (simp add: AudioThreadRoutine_start_def GetIAudioSessionManager2_def working_system_def
      AddAudioSession_def Let_def initial_state_def cross_process_def
      plain_session_def full_session_id_def AddRef_def Release_def
      AudioThread_drain.simps WinEventProc_def foreground_def SwitchMuteStates_def
      count_key_def equal_range_def set_one_def SetMute_def)

section \<open>AutoMuteRoutine\<close>

lemma set_session_mute_caps [simp]: "caps (snd (set_session_mute b k st)) = caps st"
  by (simp add: set_session_mute_def SetMute_def Let_def)

lemma set_session_mute_muted:
  "muted (snd (set_session_mute b k st)) h = (if h = k \<and> responsive st k then b else muted st h)"
  by (simp add: set_session_mute_def SetMute_def Let_def responsive_def)


lemma AutoMute_loop_caps [simp]: "caps (snd (AutoMute_loop n p gs hr st)) = caps st"
proof (induction gs arbitrary: hr st)
  case Nil
  then show ?case by simp
next
  case (Cons g gs)
  show ?case
    using Cons.IH by (auto simp: Let_def)
qed

text \<open>
  \<^verbatim>\<open>AutoMuteRoutine\<close> leaves the mute state of every session it passes over as it was;
  a cross-process session is one of them.
\<close>

lemma AutoMute_loop_passed_over:
  "passed_over n p st h \<Longrightarrow> muted (snd (AutoMute_loop n p gs hr st)) h = muted st h"
proof (induction gs arbitrary: hr st)
  case Nil
  then show ?case by simp
next
  case (Cons g gs)
  have keep: "passed_over n p s' h" if "caps s' = caps st" for s'
    using Cons.prems that by (simp add: passed_over_def)
  have ih: "muted (snd (AutoMute_loop n p gs hr' s')) h = muted s' h" if "caps s' = caps st" for hr' s'
    using Cons.IH [OF keep [OF that]] .
  have other: "snd g \<noteq> h" if "fst (GetProcessId (caps st (snd g))) = S_OK"
      "IsSystemSoundsSession (caps st (snd g)) \<noteq> S_OK"
      "snd (GetProcessId (caps st (snd g))) = n \<or> snd (GetProcessId (caps st (snd g))) = p"
    using Cons.prems that by (auto simp: passed_over_def)
  show ?case
    using other ih by (auto simp: Let_def set_session_mute_muted)
qed

lemma AutoMuteRoutine_cross_process:
  "fst (GetProcessId (caps st h)) = AUDCLNT_S_NO_SINGLE_PROCESS \<Longrightarrow>
   muted (snd (AutoMuteRoutine mgr n p st)) h = muted st h"
  by (simp add: AutoMuteRoutine_def Let_def AutoMute_loop_passed_over passed_over_def
      split: option.splits)

section \<open>The events enqueued by WinEventProc\<close>


lemma chained_append: "chained p (q @ [e]) = (chained p q \<and> fst e = last_new p q)"
  by (induction q arbitrary: p) auto

lemma last_new_append: "last_new p (q @ [e]) = snd e"
  by (induction q arbitrary: p) auto

lemma WinEventProc_chained:
  "chained p (eventQueue st) \<and> last_new p (eventQueue st) = oldProcessId st \<Longrightarrow>
   chained p (eventQueue (WinEventProc e st)) \<and>
   last_new p (eventQueue (WinEventProc e st)) = oldProcessId (WinEventProc e st)"
  by (simp add: WinEventProc_def chained_append last_new_append)

lemma callbacks_chained:
  "chained p (eventQueue st) \<and> last_new p (eventQueue st) = oldProcessId st \<Longrightarrow>
   chained p (eventQueue (callbacks es st)) \<and>
   last_new p (eventQueue (callbacks es st)) = oldProcessId (callbacks es st)"
proof (induction es arbitrary: st)
  case Nil
  then show ?case by simp
next
  case (Cons e es)
  show ?case
    using Cons.IH [OF WinEventProc_chained [OF Cons.prems]] by simp
qed

text \<open>
  C10. Starting from the initial globals, after any sequence of calls of the hook the
  queued events chain: the old process id of the first is the initial value 0, the old
  process id of every other event is the new process id of the event before it, and
  the remembered \<open>oldProcessId\<close> is the new process id of the last event. One call either
  changes nothing or appends the event built from the remembered id and then
  remembers the new one.
\<close>

theorem WinEventProc_events_chain:
  "chained 0 (eventQueue (callbacks es (initial_state c))) \<and>
   oldProcessId (callbacks es (initial_state c)) =
     last_new 0 (eventQueue (callbacks es (initial_state c))) \<and>
   (WinEventProc e st = st \<or>
    eventQueue (WinEventProc e st) = eventQueue st @ [(oldProcessId st, switchedProcessId e)] \<and>
    oldProcessId (WinEventProc e st) = switchedProcessId e)"
proof -
  have "chained 0 (eventQueue (initial_state c)) \<and>
        last_new 0 (eventQueue (initial_state c)) = oldProcessId (initial_state c)"
    by (simp add: initial_state_def)
  from callbacks_chained [OF this] show ?thesis
    by (simp add: WinEventProc_def)
qed

theorem WinEventProc_events_chain_witness:
  "eventQueue (callbacks [foreground 5, foreground 5, foreground 7] (initial_state three_sessions))
     = [(0, 5), (5, 7)] \<and>
   chained 0 (eventQueue (callbacks [foreground 5, foreground 5, foreground 7]
     (initial_state three_sessions))) \<and>
   oldProcessId (callbacks [foreground 5, foreground 5, foreground 7] (initial_state three_sessions))
     = 7"
proof -
  have q: "eventQueue (callbacks [foreground 5, foreground 5, foreground 7]
      (initial_state three_sessions)) = [(0, 5), (5, 7)]"
    by (simp add: WinEventProc_def foreground_def initial_state_def)
  have "chained 0 (eventQueue (callbacks [foreground 5, foreground 5, foreground 7]
      (initial_state three_sessions))) \<and>
    oldProcessId (callbacks [foreground 5, foreground 5, foreground 7] (initial_state three_sessions))
      = last_new 0 (eventQueue (callbacks [foreground 5, foreground 5, foreground 7]
          (initial_state three_sessions)))"
    using WinEventProc_events_chain
      [of "[foreground 5, foreground 5, foreground 7]" three_sessions "foreground 5"
        "initial_state three_sessions"]
    by blast
  then show ?thesis
    using q by simp
qed

lemma WinEventProc_differ:
  "list_all (\<lambda>e. fst e \<noteq> snd e) (eventQueue st) \<Longrightarrow>
   list_all (\<lambda>e. fst e \<noteq> snd e) (eventQueue (WinEventProc e st))"
  by (auto simp: WinEventProc_def)

lemma callbacks_differ:
  "list_all (\<lambda>e. fst e \<noteq> snd e) (eventQueue st) \<Longrightarrow>
   list_all (\<lambda>e. fst e \<noteq> snd e) (eventQueue (callbacks es st))"
  by (induction es arbitrary: st) (simp_all add: WinEventProc_differ)

lemma WinEventProc_prefix: "\<exists>q. eventQueue (WinEventProc e st) = eventQueue st @ q"
  by (simp add: WinEventProc_def)

lemma callbacks_prefix: "\<exists>q. eventQueue (callbacks es st) = eventQueue st @ q"
proof (induction es arbitrary: st)
  case Nil
  then show ?case by simp
next
  case (Cons e es)
  obtain q1 where "eventQueue (WinEventProc e st) = eventQueue st @ q1"
    using WinEventProc_prefix by blast
  moreover obtain q2 where "eventQueue (callbacks es (WinEventProc e st)) = eventQueue (WinEventProc e st) @ q2"
    using Cons.IH by blast
  ultimately show ?case by simp
qed

lemma chained_all_nonzero:
  "chained p q \<Longrightarrow> p \<noteq> 0 \<Longrightarrow> list_all (\<lambda>e. snd e \<noteq> 0) q \<Longrightarrow> list_all (\<lambda>e. fst e \<noteq> 0) q"
  by (induction q arbitrary: p) auto

lemma chained_nonzero:
  "chained p q \<Longrightarrow> list_all (\<lambda>e. snd e \<noteq> 0) q \<Longrightarrow> list_all (\<lambda>e. fst e \<noteq> 0) (tl q)"
  by (cases q) (auto intro: chained_all_nonzero)

lemma WinEventProc_new_nonzero:
  "list_all (\<lambda>e. snd e \<noteq> 0) (eventQueue st) \<Longrightarrow> switchedProcessId e \<noteq> 0 \<Longrightarrow>
   list_all (\<lambda>e. snd e \<noteq> 0) (eventQueue (WinEventProc e st))"
  by (auto simp: WinEventProc_def)

lemma callbacks_new_nonzero:
  "list_all (\<lambda>e. snd e \<noteq> 0) (eventQueue st) \<Longrightarrow> list_all (\<lambda>e. switchedProcessId e \<noteq> 0) es \<Longrightarrow>
   list_all (\<lambda>e. snd e \<noteq> 0) (eventQueue (callbacks es st))"
  by (induction es arbitrary: st) (simp_all add: WinEventProc_new_nonzero)

lemma chained_hd: "chained p q \<Longrightarrow> q \<noteq> [] \<Longrightarrow> fst (hd q) = p"
  by (cases q) auto

text \<open>
  C7, as amended. Every event the hook enqueues has an old process id different from
  its new one. The first enqueued event has the old process id 0, the initial value of
  \<open>oldProcessId\<close>. When every process id reported to the hook is non-zero, every enqueued
  event has a non-zero new process id and every event but the first a non-zero old one.
\<close>

theorem WinEventProc_enqueued_events:
  "list_all (\<lambda>e. fst e \<noteq> snd e) (eventQueue (callbacks es (initial_state c))) \<and>
   (eventQueue (callbacks es (initial_state c)) \<noteq> [] \<longrightarrow>
      fst (hd (eventQueue (callbacks es (initial_state c)))) = 0) \<and>
   (list_all (\<lambda>e. switchedProcessId e \<noteq> 0) es \<longrightarrow>
      list_all (\<lambda>e. snd e \<noteq> 0) (eventQueue (callbacks es (initial_state c))) \<and>
      list_all (\<lambda>e. fst e \<noteq> 0) (tl (eventQueue (callbacks es (initial_state c)))))"
proof -
  let ?q = "eventQueue (callbacks es (initial_state c))"
  have init: "eventQueue (initial_state c) = []" "oldProcessId (initial_state c) = 0"
    by (simp_all add: initial_state_def)
  have differ: "list_all (\<lambda>e. fst e \<noteq> snd e) ?q"
    by (rule callbacks_differ) (simp add: init)
  have ch: "chained 0 ?q"
    using callbacks_chained [of 0 "initial_state c" es] by (simp add: init)
  have first: "?q \<noteq> [] \<longrightarrow> fst (hd ?q) = 0"
    using chained_hd [OF ch] by simp
  have nz: "list_all (\<lambda>e. snd e \<noteq> 0) ?q" if "list_all (\<lambda>e. switchedProcessId e \<noteq> 0) es"
    by (rule callbacks_new_nonzero [OF _ that]) (simp add: init)
  show ?thesis
    using differ first nz chained_nonzero [OF ch] by blast
qed

text \<open>
  The claim C7 as stated fails: the first foreground change after the start, to a
  window of process 5, enqueues the event \<open>(0, 5)\<close>, whose old process id is zero.
\<close>

theorem first_event_has_zero_old_id:
  "eventQueue (callbacks [foreground 5] (initial_state three_sessions)) = [(0, 5)] \<and>
   \<not> list_all (\<lambda>e. fst e \<noteq> 0 \<and> snd e \<noteq> 0 \<and> fst e \<noteq> snd e)
       (eventQueue (callbacks [foreground 5] (initial_state three_sessions)))"
  by (simp add: WinEventProc_def foreground_def initial_state_def)

theorem WinEventProc_enqueued_events_witness:
  "list_all (\<lambda>e. switchedProcessId e \<noteq> 0) [foreground 5, foreground 5, foreground 7] \<and>
   eventQueue (callbacks [foreground 5, foreground 5, foreground 7] (initial_state three_sessions))
     = [(0, 5), (5, 7)] \<and>
   list_all (\<lambda>e. fst e \<noteq> snd e)
     (eventQueue (callbacks [foreground 5, foreground 5, foreground 7] (initial_state three_sessions)))
   \<and> list_all (\<lambda>e. snd e \<noteq> 0)
     (eventQueue (callbacks [foreground 5, foreground 5, foreground 7] (initial_state three_sessions)))"
proof -
  have nz: "list_all (\<lambda>e. switchedProcessId e \<noteq> 0) [foreground 5, foreground 5, foreground 7]"
    by (simp add: foreground_def)
  have q: "eventQueue (callbacks [foreground 5, foreground 5, foreground 7] (initial_state three_sessions))
     = [(0, 5), (5, 7)]"
    by (simp add: WinEventProc_def foreground_def initial_state_def)
  show ?thesis
    using WinEventProc_enqueued_events [of "[foreground 5, foreground 5, foreground 7]" three_sessions]
      nz q by simp
qed

section \<open>Draining the queue\<close>


lemma set_one_queue: "set_one b h (st\<lparr>eventQueue := q\<rparr>) = (set_one b h st)\<lparr>eventQueue := q\<rparr>"
  by (simp add: set_one_def SetMute_def AddRef_def Release_def)

lemma set_range_queue:
  "set_range b hs (st\<lparr>eventQueue := q\<rparr>) = (set_range b hs st)\<lparr>eventQueue := q\<rparr>"
  by (induction hs arbitrary: st) (simp_all add: set_one_queue)

lemma SwitchMuteStates_queue:
  "SwitchMuteStates a b (st\<lparr>eventQueue := q\<rparr>) = (SwitchMuteStates a b st)\<lparr>eventQueue := q\<rparr>"
  by (simp add: SwitchMuteStates_eq set_range_queue)

lemma apply_events_queue:
  "apply_events es (st\<lparr>eventQueue := q\<rparr>) = (apply_events es st)\<lparr>eventQueue := q\<rparr>"
  by (induction es arbitrary: st) (simp_all add: SwitchMuteStates_queue)

lemma AudioThread_drain_eq:
  "AudioThread_drain st = (apply_events (eventQueue st) st)\<lparr>eventQueue := []\<rparr>"
proof (induction "eventQueue st" arbitrary: st)
  case Nil
  then have "eventQueue st = []" by simp
  then show ?case
    by (simp add: AudioThread_drain.simps)
next
  case (Cons e q)
  then have front: "eventQueue st = e # q" by simp
  let ?next = "(SwitchMuteStates (fst e) (snd e) st)\<lparr>eventQueue := q\<rparr>"
  have "AudioThread_drain st = AudioThread_drain ?next"
    using front by (subst AudioThread_drain.simps) simp
  also have "\<dots> = (apply_events (eventQueue ?next) ?next)\<lparr>eventQueue := []\<rparr>"
    by (rule Cons.hyps(1)) simp
  also have "\<dots> = (apply_events (eventQueue st) st)\<lparr>eventQueue := []\<rparr>"
    by (simp add: front apply_events_queue)
  finally show ?case .
qed

lemma responsive_SwitchMuteStates [simp]:
  "responsive (SwitchMuteStates a b st) k = responsive st k"
  by (simp add: responsive_def)

lemma three_transitions:
  assumes once: "distinct (map snd (sessionsList st))"
    and ne: "P1 \<noteq> P2" "P1 \<noteq> P3" "P2 \<noteq> P3"
    and resp: "\<forall>h \<in> set (equal_range P1 (sessionsList st)) \<union> set (equal_range P2 (sessionsList st)) \<union>
                 set (equal_range P3 (sessionsList st)). responsive st h"
  shows "(\<forall>h \<in> set (equal_range P3 (sessionsList st)).
            \<not> muted (apply_events [(0, P1), (P1, P2), (P2, P3)] st) h) \<and>
         (\<forall>h \<in> set (equal_range P1 (sessionsList st)) \<union> set (equal_range P2 (sessionsList st)).
            muted (apply_events [(0, P1), (P1, P2), (P2, P3)] st) h)"
proof -
  let ?m = "sessionsList st"
  have p3: "\<not> muted (apply_events [(0, P1), (P1, P2), (P2, P3)] st) h"
    if "h \<in> set (equal_range P3 ?m)" for h
    using that resp by (simp add: SwitchMuteStates_muted)
  have p2: "muted (apply_events [(0, P1), (P1, P2), (P2, P3)] st) h"
    if "h \<in> set (equal_range P2 ?m)" for h
  proof -
    have "h \<notin> set (equal_range P3 ?m)"
      using equal_range_disjoint [OF once ne(3) that] .
    then show ?thesis
      using that resp by (simp add: SwitchMuteStates_muted)
  qed
  have p1: "muted (apply_events [(0, P1), (P1, P2), (P2, P3)] st) h"
    if "h \<in> set (equal_range P1 ?m)" for h
  proof -
    have "h \<notin> set (equal_range P3 ?m)" "h \<notin> set (equal_range P2 ?m)"
      using equal_range_disjoint [OF once ne(2) that] equal_range_disjoint [OF once ne(1) that]
      by simp_all
    then show ?thesis
      using that resp by (simp add: SwitchMuteStates_muted)
  qed
  show ?thesis
    using p1 p2 p3 by blast
qed

text \<open>
  C5. Draining the queue applies the transition of every queued event, one per event,
  from the front of the queue to its back, and leaves the queue empty: the result is
  that of applying the events in the order in which they were enqueued. For the batch
  \<open>[(0, P1), (P1, P2), (P2, P3)]\<close> of three distinct processes, with every session
  object registered once and the sessions of the three processes answering the volume
  query and \<^verbatim>\<open>SetMute\<close> with success, the three transitions are applied in that order
  and afterwards every session of \<open>P3\<close> is unmuted and every session of \<open>P1\<close> and of
  \<open>P2\<close> is muted.
\<close>

theorem AudioThread_drain_in_order:
  "AudioThread_drain st = (apply_events (eventQueue st) st)\<lparr>eventQueue := []\<rparr> \<and>
   (eventQueue st = [(0, P1), (P1, P2), (P2, P3)] \<and> P1 \<noteq> P2 \<and> P1 \<noteq> P3 \<and> P2 \<noteq> P3 \<and>
    distinct (map snd (sessionsList st)) \<and>
    (\<forall>h \<in> set (equal_range P1 (sessionsList st)) \<union> set (equal_range P2 (sessionsList st)) \<union>
           set (equal_range P3 (sessionsList st)). responsive st h)
    \<longrightarrow> AudioThread_drain st =
          (SwitchMuteStates P2 P3 (SwitchMuteStates P1 P2 (SwitchMuteStates 0 P1 st)))
            \<lparr>eventQueue := []\<rparr> \<and>
        (\<forall>h \<in> set (equal_range P3 (sessionsList st)). \<not> muted (AudioThread_drain st) h) \<and>
        (\<forall>h \<in> set (equal_range P1 (sessionsList st)) \<union> set (equal_range P2 (sessionsList st)).
           muted (AudioThread_drain st) h))"
proof (intro conjI impI)
  show "AudioThread_drain st = (apply_events (eventQueue st) st)\<lparr>eventQueue := []\<rparr>"
    by (rule AudioThread_drain_eq)
next
  assume h: "eventQueue st = [(0, P1), (P1, P2), (P2, P3)] \<and> P1 \<noteq> P2 \<and> P1 \<noteq> P3 \<and> P2 \<noteq> P3 \<and>
    distinct (map snd (sessionsList st)) \<and>
    (\<forall>h \<in> set (equal_range P1 (sessionsList st)) \<union> set (equal_range P2 (sessionsList st)) \<union>
           set (equal_range P3 (sessionsList st)). responsive st h)"
  then have q: "eventQueue st = [(0, P1), (P1, P2), (P2, P3)]" by simp
  show "AudioThread_drain st =
          (SwitchMuteStates P2 P3 (SwitchMuteStates P1 P2 (SwitchMuteStates 0 P1 st)))
            \<lparr>eventQueue := []\<rparr>"
    by (simp add: AudioThread_drain_eq q)
  have t: "(\<forall>h \<in> set (equal_range P3 (sessionsList st)).
            \<not> muted (apply_events [(0, P1), (P1, P2), (P2, P3)] st) h) \<and>
         (\<forall>h \<in> set (equal_range P1 (sessionsList st)) \<union> set (equal_range P2 (sessionsList st)).
            muted (apply_events [(0, P1), (P1, P2), (P2, P3)] st) h)"
    using h by (intro three_transitions) simp_all
  show "\<forall>h \<in> set (equal_range P3 (sessionsList st)). \<not> muted (AudioThread_drain st) h"
    using t by (simp add: AudioThread_drain_eq q)
  show "\<forall>h \<in> set (equal_range P1 (sessionsList st)) \<union> set (equal_range P2 (sessionsList st)).
           muted (AudioThread_drain st) h"
    using t by (simp add: AudioThread_drain_eq q)
qed


theorem AudioThread_drain_in_order_witness:
  "eventQueue three_queued = [(0, 5), (5, 7), (7, 9)] \<and>
   distinct (map snd (sessionsList three_queued)) \<and>
   eventQueue (AudioThread_drain three_queued) = [] \<and>
   \<not> muted (AudioThread_drain three_queued) 3 \<and>
   muted (AudioThread_drain three_queued) 1 \<and> muted (AudioThread_drain three_queued) 2"
proof -
  have q: "eventQueue three_queued = [(0, 5), (5, 7), (7, 9)]"
    by (simp add: three_queued_def)
  have m: "sessionsList three_queued = [(5, 1), (7, 2), (9, 3)]"
    by (simp add: three_queued_def)
  have r: "responsive three_queued h" for h
    by (simp add: three_queued_def responsive_def three_sessions_def plain_session_def)
  have hyp: "eventQueue three_queued = [(0, 5), (5, 7), (7, 9)] \<and>
      (5 :: DWORD) \<noteq> 7 \<and> (5 :: DWORD) \<noteq> 9 \<and> (7 :: DWORD) \<noteq> 9 \<and>
      distinct (map snd (sessionsList three_queued)) \<and>
      (\<forall>h \<in> set (equal_range 5 (sessionsList three_queued)) \<union>
             set (equal_range 7 (sessionsList three_queued)) \<union>
             set (equal_range 9 (sessionsList three_queued)). responsive three_queued h)"
    using q r by (simp add: m)
  have emptied: "eventQueue (AudioThread_drain three_queued) = []"
    by (subst AudioThread_drain_in_order [of three_queued 5 7 9, THEN conjunct1]) simp
  have states: "\<not> muted (AudioThread_drain three_queued) 3 \<and>
      muted (AudioThread_drain three_queued) 1 \<and> muted (AudioThread_drain three_queued) 2"
    using AudioThread_drain_in_order [of three_queued 5 7 9, THEN conjunct2, THEN mp, OF hyp,
        THEN conjunct2]
    by (simp add: m equal_range_def)
  show ?thesis
    using q emptied states by (simp add: m)
qed

section \<open>Equal and zero process ids\<close>

text \<open>
  C6, as amended. \<^verbatim>\<open>AutoMuteRoutine\<close> called with a zero process id in either position
  returns \<^verbatim>\<open>E_INVALIDARG\<close>, and called with equal non-zero ids returns \<^verbatim>\<open>S_FALSE\<close>; in
  both cases the state is returned as it was, so no call is made on any session and no
  mute state changes. The zero id is a failure for the caller: \<^verbatim>\<open>APCAutoMuteRoutine\<close>
  sets \<open>gbEndProgram\<close> and ends its thread with \<^verbatim>\<open>E_INVALIDARG\<close>.
\<close>

theorem AutoMuteRoutine_rejects:
  "(newProcId = 0 \<or> prevProcId = 0 \<or> newProcId = prevProcId \<longrightarrow>
      AutoMuteRoutine mgr newProcId prevProcId st =
        (if newProcId = 0 \<or> prevProcId = 0 then E_INVALIDARG else S_FALSE, st)) \<and>
   ((newProcId = 0 \<or> gPrevProcessId g = 0) \<and> newProcId \<noteq> gPrevProcessId g \<longrightarrow>
      fst (APCAutoMuteRoutine newProcId g st) = Some E_INVALIDARG \<and>
      gbEndProgram (fst (snd (APCAutoMuteRoutine newProcId g st))) \<and>
      muted (snd (snd (APCAutoMuteRoutine newProcId g st))) = muted st \<and>
      setMuteCalls (snd (snd (APCAutoMuteRoutine newProcId g st))) = setMuteCalls st)"
proof -
  have a: "newProcId = 0 \<or> prevProcId = 0 \<or> newProcId = prevProcId \<longrightarrow>
      AutoMuteRoutine mgr newProcId prevProcId st =
        (if newProcId = 0 \<or> prevProcId = 0 then E_INVALIDARG else S_FALSE, st)"
    by (simp add: AutoMuteRoutine_def)
  have b: "(newProcId = 0 \<or> gPrevProcessId g = 0) \<and> newProcId \<noteq> gPrevProcessId g \<longrightarrow>
      fst (APCAutoMuteRoutine newProcId g st) = Some E_INVALIDARG \<and>
      gbEndProgram (fst (snd (APCAutoMuteRoutine newProcId g st))) \<and>
      muted (snd (snd (APCAutoMuteRoutine newProcId g st))) = muted st \<and>
      setMuteCalls (snd (snd (APCAutoMuteRoutine newProcId g st))) = setMuteCalls st"
    by (simp add: APCAutoMuteRoutine_def AutoMuteRoutine_def Let_def CoUninitialize_def
        ReleaseManager_def)
  show ?thesis
    using a b by blast
qed

theorem AutoMuteRoutine_rejects_witness:
  "AutoMuteRoutine (Some (working_system [1, 2, 3])) 7 7 three_registered = (S_FALSE, three_registered) \<and>
   AutoMuteRoutine (Some (working_system [1, 2, 3])) 0 7 three_registered = (E_INVALIDARG, three_registered) \<and>
   AutoMuteRoutine (Some (working_system [1, 2, 3])) 7 0 three_registered = (E_INVALIDARG, three_registered) \<and>
   gPrevProcessId apc_example = 5 \<and>
   fst (APCAutoMuteRoutine 0 apc_example three_registered) = Some E_INVALIDARG"
  using AutoMuteRoutine_rejects [of 7 7 "Some (working_system [1, 2, 3])" three_registered]
    AutoMuteRoutine_rejects [of 0 7 "Some (working_system [1, 2, 3])" three_registered apc_example]
    AutoMuteRoutine_rejects [of 7 0 "Some (working_system [1, 2, 3])" three_registered]
  by (simp add: apc_example_def)

text \<open>
  The claim C6 as stated fails: with the registered session of process 7 muted,
  \<open>SwitchMuteStates 7 7\<close> and \<open>SwitchMuteStates 0 7\<close> unmute it, \<open>SwitchMuteStates 5 0\<close>
  mutes the session of process 5, and \<^verbatim>\<open>APCAutoMuteRoutine\<close> called with the id 0 sets
  \<open>gbEndProgram\<close>.
\<close>

theorem SwitchMuteStates_same_or_zero_id_changes_state:
  "muted three_registered 2 \<and> \<not> muted (SwitchMuteStates 7 7 three_registered) 2 \<and>
   \<not> muted (SwitchMuteStates 0 7 three_registered) 2 \<and>
   \<not> muted three_registered 1 \<and> muted (SwitchMuteStates 5 0 three_registered) 1 \<and>
   gbEndProgram (fst (snd (APCAutoMuteRoutine 0 apc_example three_registered)))"
  by (simp add: SwitchMuteStates_muted equal_range_def APCAutoMuteRoutine_def AutoMuteRoutine_def
      Let_def apc_example_def)

section \<open>Failing calls within a batch\<close>


lemma five_registered_simps [simp]:
  "sessionsList five_registered = [(5, 1), (5, 2), (5, 3), (5, 4), (5, 5)]"
  "muted five_registered = (\<lambda>h. False)"
  "caps five_registered = five_sessions"
  "setMuteCalls five_registered = []"
  by (simp_all add: five_registered_def initial_state_def)

lemma five_sessions_responsive [simp]: "responsive five_registered h = (h \<noteq> 3)"
  by (simp add: responsive_def five_sessions_def plain_session_def)



section \<open>Failure during the start of the tracker thread\<close>



lemma entries_append [simp]: "entries h (m @ [e]) = entries h m + (if snd e = h then 1 else 0)"
  by (simp add: entries_def)

lemma entries_Nil [simp]: "entries h [] = 0"
  by (simp add: entries_def)

lemma entries_Cons [simp]: "entries h (e # m) = (if snd e = h then 1 else 0) + entries h m"
  by (simp add: entries_def)


lemma AddAudioSession_surplus:
  "surplus (snd (AddAudioSession k st)) h = surplus st h"
  by (simp add: AddAudioSession_def Let_def surplus_def AddRef_def)

lemma AddAudioSession_frame [simp]:
  "caps (snd (AddAudioSession k st)) = caps st"
  "comInit (snd (AddAudioSession k st)) = comInit st"
  "managerRefs (snd (AddAudioSession k st)) = managerRefs st"
  "sessionNotification (snd (AddAudioSession k st)) = sessionNotification st"
  by (simp_all add: AddAudioSession_def Let_def AddRef_def)

lemma surplus_AddRef: "surplus (AddRef k st) h = surplus st h + (if h = k then 1 else 0)"
  by (simp add: surplus_def AddRef_def)

lemma surplus_Release: "surplus (Release k st) h = surplus st h - (if h = k then 1 else 0)"
  by (simp add: surplus_def Release_def)

lemma enumerate_sessions_surplus:
  "surplus (snd (enumerate_sessions gs hr st)) h = surplus st h"
proof (induction gs arbitrary: hr st)
  case Nil
  then show ?case by simp
next
  case (Cons g gs)
  show ?case
    using Cons.IH
    by (auto simp: Let_def surplus_AddRef surplus_Release AddAudioSession_surplus)
qed

lemma enumerate_sessions_frame [simp]:
  "caps (snd (enumerate_sessions gs hr st)) = caps st"
  "comInit (snd (enumerate_sessions gs hr st)) = comInit st"
  "managerRefs (snd (enumerate_sessions gs hr st)) = managerRefs st"
  "sessionNotification (snd (enumerate_sessions gs hr st)) = sessionNotification st"
proof (induction gs arbitrary: hr st)
  case Nil
  {
    case 1 show ?case by simp
  next
    case 2 show ?case by simp
  next
    case 3 show ?case by simp
  next
    case 4 show ?case by simp
  }
next
  case (Cons g gs)
  {
    case 1 show ?case using Cons.IH(1) by (auto simp: Let_def AddRef_def Release_def)
  next
    case 2 show ?case using Cons.IH(2) by (auto simp: Let_def AddRef_def Release_def)
  next
    case 3 show ?case using Cons.IH(3) by (auto simp: Let_def AddRef_def Release_def)
  next
    case 4 show ?case using Cons.IH(4) by (auto simp: Let_def AddRef_def Release_def)
  }
qed

lemma release_all_frame [simp]:
  "sessionsList (release_all ps st) = sessionsList st"
  "comInit (release_all ps st) = comInit st"
  "managerRefs (release_all ps st) = managerRefs st"
  "sessionNotification (release_all ps st) = sessionNotification st"
  by (induction ps arbitrary: st; simp add: Release_def)+

lemma release_all_refCount:
  "refCount (release_all ps st) h = refCount st h - int (entries h ps)"
  by (induction ps arbitrary: st) (auto simp: Release_def)

lemma release_all_listening:
  "listening (release_all ps st) h = (if h \<in> snd ` set ps then False else listening st h)"
  by (induction ps arbitrary: st) (auto simp: Release_def)

lemma unwind_result:
  "fst (unwind code c st) = (if c = 1 then Delete_of_automatic_object else Exit code)"
  "refCount (snd (unwind code c st)) h = surplus st h"
  "comInit (snd (unwind code c st)) = (if c = 1 then comInit st else comInit st - 1)"
  "managerRefs (snd (unwind code c st)) = managerRefs st - 1"
  "\<not> sessionNotification (snd (unwind code c st))"
  "sessionsList (snd (unwind code c st)) = sessionsList st"
  by (simp_all add: unwind_def CAudioSessionEvents_Release_def Let_def CoUninitialize_def
      ReleaseManager_def UnregisterSessionNotification_def release_all_refCount surplus_def)

lemma unwind_listening:
  assumes "(p, h) \<in> set (sessionsList st)"
  shows "\<not> listening (snd (unwind code c st)) h"
proof -
  have "h \<in> snd ` set (sessionsList st)"
    using assms by force
  then show ?thesis
    by (simp add: unwind_def CAudioSessionEvents_Release_def Let_def CoUninitialize_def
        ReleaseManager_def UnregisterSessionNotification_def release_all_listening)
qed

lemma GetIAudioSessionManager2_result:
  "fst (GetIAudioSessionManager2 sys False False st) = S_OK \<longleftrightarrow>
     CoCreateInstance sys = S_OK \<and> GetDefaultAudioEndpoint sys = S_OK \<and> Activate sys = S_OK"
  "fst (GetIAudioSessionManager2 sys False False st) \<noteq> S_OK \<Longrightarrow>
     snd (GetIAudioSessionManager2 sys False False st) = st"
  "fst (GetIAudioSessionManager2 sys False False st) = S_OK \<Longrightarrow>
     snd (GetIAudioSessionManager2 sys False False st) = st\<lparr>managerRefs := managerRefs st + 1\<rparr>"
  by (auto simp: GetIAudioSessionManager2_def)

text \<open>
  How the start ends, step by step. The codes 2, 3 and 4 are returned; on the branches
  of the codes 5, 6 and 7 the thread deletes its local sink before it reaches the
  \<^verbatim>\<open>return\<close>.
\<close>

lemma start_code:
  "fst (AudioThreadRoutine_start sys st) =
     (if CoInitializeEx sys \<noteq> S_OK then Some (Exit 2)
      else if fst (GetIAudioSessionManager2 sys False False st) \<noteq> S_OK then Some (Exit 3)
      else if RegisterSessionNotification sys \<noteq> S_OK then Some (Exit 4)
      else if GetSessionEnumerator sys \<noteq> S_OK then Some Delete_of_automatic_object
      else if GetCount sys \<noteq> S_OK then Some Delete_of_automatic_object
      else if fst (enumerate_sessions (GetSession sys) S_OK (registered_state st)) \<noteq> S_OK \<and>
              fst (enumerate_sessions (GetSession sys) S_OK (registered_state st))
                \<noteq> AUDCLNT_S_NO_SINGLE_PROCESS then Some Delete_of_automatic_object
      else None)"
  by (auto simp: AudioThreadRoutine_start_def Let_def GetIAudioSessionManager2_def
      registered_state_def unwind_result(1) CAudioSessionEvents_new_def)

lemma start_never_returns_5_6_7:
  "fst (AudioThreadRoutine_start sys st) \<noteq> Some (Exit 5) \<and>
   fst (AudioThreadRoutine_start sys st) \<noteq> Some (Exit 6) \<and>
   fst (AudioThreadRoutine_start sys st) \<noteq> Some (Exit 7)"
  by (simp add: start_code)

lemma registered_state_simps [simp]:
  "surplus (registered_state st) h = surplus st h"
  "sessionsList (registered_state st) = sessionsList st"
  "comInit (registered_state st) = comInit st + 1"
  "managerRefs (registered_state st) = managerRefs st + 1"
  "caps (registered_state st) = caps st"
  "sessionIdSet (registered_state st) = sessionIdSet st"
  by (simp_all add: registered_state_def surplus_def)

lemma start_state:
  "snd (AudioThreadRoutine_start sys st) =
     (if CoInitializeEx sys \<noteq> S_OK
      then (if CoInitializeEx sys = S_FALSE
            then CoUninitialize (st\<lparr>comInit := comInit st + 1\<rparr>) else st)
      else if fst (GetIAudioSessionManager2 sys False False st) \<noteq> S_OK
        then CoUninitialize (st\<lparr>comInit := comInit st + 1\<rparr>)
      else if RegisterSessionNotification sys \<noteq> S_OK
        then CoUninitialize (ReleaseManager
               (st\<lparr>comInit := comInit st + 1, managerRefs := managerRefs st + 1\<rparr>))
      else if GetSessionEnumerator sys \<noteq> S_OK then snd (unwind 5 1 (registered_state st))
      else if GetCount sys \<noteq> S_OK then snd (unwind 6 1 (registered_state st))
      else if fst (enumerate_sessions (GetSession sys) S_OK (registered_state st)) \<noteq> S_OK \<and>
              fst (enumerate_sessions (GetSession sys) S_OK (registered_state st))
                \<noteq> AUDCLNT_S_NO_SINGLE_PROCESS
        then snd (unwind 7 1 (snd (enumerate_sessions (GetSession sys) S_OK (registered_state st))))
      else snd (enumerate_sessions (GetSession sys) S_OK (registered_state st)))"
  by (auto simp: AudioThreadRoutine_start_def Let_def GetIAudioSessionManager2_def
      registered_state_def CAudioSessionEvents_new_def)

text \<open>
  Up to the release of the sink the unwinding does what it is meant to do: when the
  thread starts with an empty registry and does not become ready, the session
  notification is unregistered, the session manager given back, every session object
  has the reference count it had before, and the sink is unregistered from every
  registered session. COM is uninitialised only where the thread returns.
\<close>

lemma start_unwound:
  assumes "sessionsList st = []" and "\<not> sessionNotification st"
    and "fst (AudioThreadRoutine_start sys st) = Some e"
  shows "\<not> sessionNotification (snd (AudioThreadRoutine_start sys st)) \<and>
         managerRefs (snd (AudioThreadRoutine_start sys st)) = managerRefs st \<and>
         comInit (snd (AudioThreadRoutine_start sys st)) =
           (if e = Delete_of_automatic_object then comInit st + 1 else comInit st) \<and>
         (\<forall>h. refCount (snd (AudioThreadRoutine_start sys st)) h = refCount st h) \<and>
         (\<forall>p h. (p, h) \<in> set (sessionsList (snd (AudioThreadRoutine_start sys st))) \<longrightarrow>
            \<not> listening (snd (AudioThreadRoutine_start sys st)) h)"
proof -
  let ?r = "enumerate_sessions (GetSession sys) S_OK (registered_state st)"
  have zero: "surplus st h = refCount st h" for h
    using assms(1) by (simp add: surplus_def)
  have unwound: "\<not> sessionNotification (snd (unwind code 1 s)) \<and>
      managerRefs (snd (unwind code 1 s)) = managerRefs st \<and>
      comInit (snd (unwind code 1 s)) = comInit st + 1 \<and>
      (\<forall>h. refCount (snd (unwind code 1 s)) h = refCount st h) \<and>
      (\<forall>p h. (p, h) \<in> set (sessionsList (snd (unwind code 1 s))) \<longrightarrow>
         \<not> listening (snd (unwind code 1 s)) h)"
    if "comInit s = comInit st + 1" "managerRefs s = managerRefs st + 1"
      "\<And>h. surplus s h = surplus st h" for s code
    using that unwind_listening [of _ _ s code 1] by (simp add: unwind_result zero)
  have loop: "comInit (snd ?r) = comInit st + 1" "managerRefs (snd ?r) = managerRefs st + 1"
    "\<And>h. surplus (snd ?r) h = surplus st h"
    by (simp_all add: enumerate_sessions_surplus)
  have before: "comInit (registered_state st) = comInit st + 1"
    "managerRefs (registered_state st) = managerRefs st + 1"
    "\<And>h. surplus (registered_state st) h = surplus st h"
    by simp_all
  show ?thesis
    using assms unwound [OF loop] unwound [OF before]
    by (auto simp: start_state start_code CoUninitialize_def ReleaseManager_def split: if_splits)
qed

text \<open>
  The enumeration loop leaves at the first session with a failing call: after sessions
  on which every call succeeds, a failing \<^verbatim>\<open>GetSession\<close>, a failing \<^verbatim>\<open>QueryInterface\<close>
  or a failing call inside \<^verbatim>\<open>AddAudioSession\<close> ends the loop with the result of that
  call, whatever sessions follow.
\<close>

lemma AddAudioSession_clean:
  assumes "clean st g" and "caps s = caps st"
  shows "fst (AddAudioSession (snd g) s) = S_OK"
  using assms by (auto simp: clean_def AddAudioSession_def Let_def)

lemma enumerate_sessions_clean_step:
  assumes "clean st g" and "caps s = caps st"
  shows "\<exists>s'. caps s' = caps st \<and>
           enumerate_sessions (g # rest) hr s = enumerate_sessions rest S_OK s'"
proof -
  let ?s3 = "Release (snd g) (AddRef (snd g) (AddRef (snd g) s))"
  have c3: "caps ?s3 = caps st"
    using assms(2) by simp
  have ok: "fst (AddAudioSession (snd g) ?s3) = S_OK"
    using AddAudioSession_clean [OF assms(1) c3] .
  have "enumerate_sessions (g # rest) hr s =
          enumerate_sessions rest S_OK (Release (snd g) (snd (AddAudioSession (snd g) ?s3)))"
    using assms ok by (simp add: clean_def Let_def)
  moreover have "caps (Release (snd g) (snd (AddAudioSession (snd g) ?s3))) = caps st"
    using c3 by simp
  ultimately show ?thesis
    by blast
qed

lemma enumerate_sessions_clean_prefix:
  assumes "\<forall>g \<in> set pre. clean st g" and "caps s = caps st"
  shows "\<exists>s' hr'. caps s' = caps st \<and>
           enumerate_sessions (pre @ rest) hr s = enumerate_sessions rest hr' s'"
  using assms
proof (induction pre arbitrary: s hr)
  case Nil
  then show ?case by auto
next
  case (Cons g pre)
  obtain s1 where s1: "caps s1 = caps st"
      "enumerate_sessions (g # (pre @ rest)) hr s = enumerate_sessions (pre @ rest) S_OK s1"
    using enumerate_sessions_clean_step [of st g s "pre @ rest" hr] Cons.prems by auto
  obtain s' hr' where "caps s' = caps st"
      "enumerate_sessions (pre @ rest) S_OK s1 = enumerate_sessions rest hr' s'"
    using Cons.IH [of s1 S_OK] Cons.prems s1(1) by auto
  then show ?case
    using s1(2) by auto
qed

lemma enumerate_sessions_breaks:
  assumes "\<forall>g \<in> set pre. clean st g"
  shows "fst g \<noteq> S_OK \<Longrightarrow> fst (enumerate_sessions (pre @ g # post) hr st) = fst g"
    and "fst g = S_OK \<Longrightarrow> QueryInterface_IAudioSessionControl2 (caps st (snd g)) \<noteq> S_OK \<Longrightarrow>
         fst (enumerate_sessions (pre @ g # post) hr st) =
           QueryInterface_IAudioSessionControl2 (caps st (snd g))"
    and "fst g = S_OK \<Longrightarrow> QueryInterface_IAudioSessionControl2 (caps st (snd g)) = S_OK \<Longrightarrow>
         snd g \<noteq> 0 \<Longrightarrow> GetDisplayName (caps st (snd g)) \<noteq> S_OK \<Longrightarrow>
         GetDisplayName (caps st (snd g)) \<noteq> AUDCLNT_S_NO_SINGLE_PROCESS \<Longrightarrow>
         fst (enumerate_sessions (pre @ g # post) hr st) = GetDisplayName (caps st (snd g))"
proof -
  obtain s' hr' where s': "caps s' = caps st"
      "enumerate_sessions (pre @ g # post) hr st = enumerate_sessions (g # post) hr' s'"
    using enumerate_sessions_clean_prefix [OF assms, of st "g # post" hr] by auto
  show "fst g \<noteq> S_OK \<Longrightarrow> fst (enumerate_sessions (pre @ g # post) hr st) = fst g"
    by (simp add: s')
  show "fst g = S_OK \<Longrightarrow> QueryInterface_IAudioSessionControl2 (caps st (snd g)) \<noteq> S_OK \<Longrightarrow>
         fst (enumerate_sessions (pre @ g # post) hr st) =
           QueryInterface_IAudioSessionControl2 (caps st (snd g))"
    by (simp add: s' Let_def)
  show "fst g = S_OK \<Longrightarrow> QueryInterface_IAudioSessionControl2 (caps st (snd g)) = S_OK \<Longrightarrow>
         snd g \<noteq> 0 \<Longrightarrow> GetDisplayName (caps st (snd g)) \<noteq> S_OK \<Longrightarrow>
         GetDisplayName (caps st (snd g)) \<noteq> AUDCLNT_S_NO_SINGLE_PROCESS \<Longrightarrow>
         fst (enumerate_sessions (pre @ g # post) hr st) = GetDisplayName (caps st (snd g))"
    by (simp add: s' Let_def AddAudioSession_def)
qed

lemma enumerate_sessions_all_clean:
  assumes "\<forall>g \<in> set gs. clean st g"
  shows "fst (enumerate_sessions gs S_OK st) = S_OK"
proof -
  obtain s' hr' where s': "caps s' = caps st"
      "enumerate_sessions (gs @ []) S_OK st = enumerate_sessions [] hr' s'"
    using enumerate_sessions_clean_prefix [OF assms, of st "[]" S_OK] by auto
  show ?thesis
  proof (cases gs rule: rev_cases)
    case Nil
    then show ?thesis by simp
  next
    case (snoc pre g)
    obtain s1 hr1 where s1: "caps s1 = caps st"
        "enumerate_sessions (pre @ [g]) S_OK st = enumerate_sessions [g] hr1 s1"
      using enumerate_sessions_clean_prefix [of pre st st "[g]" S_OK] assms snoc by auto
    obtain s2 where "enumerate_sessions [g] hr1 s1 = enumerate_sessions [] S_OK s2"
      using enumerate_sessions_clean_step [of st g s1 "[]" hr1] assms snoc s1(1) by auto
    then show ?thesis
      using s1(2) snoc by simp
  qed
qed

lemma clean_registered_state [simp]: "clean (registered_state st) g = clean st g"
  by (simp add: clean_def)

text \<open>
  For the whole start: when every step before the loop succeeds, the thread becomes
  ready if every call on every enumerated session succeeds, and it takes the branch of
  the code 7, which deletes the local sink, if a \<^verbatim>\<open>GetSession\<close> fails after sessions on
  which every call succeeds.
\<close>

lemma start_ready:
  assumes "CoInitializeEx sys = S_OK" "CoCreateInstance sys = S_OK"
    "GetDefaultAudioEndpoint sys = S_OK" "Activate sys = S_OK"
    "RegisterSessionNotification sys = S_OK" "GetSessionEnumerator sys = S_OK"
    "GetCount sys = S_OK"
    and "\<forall>g \<in> set (GetSession sys). clean st g"
  shows "fst (AudioThreadRoutine_start sys st) = None"
proof -
  have "fst (enumerate_sessions (GetSession sys) S_OK (registered_state st)) = S_OK"
    using assms(8) by (intro enumerate_sessions_all_clean) simp
  then show ?thesis
    using assms(1-7) by (simp add: start_code GetIAudioSessionManager2_result(1))
qed

lemma start_loop_failure:
  assumes "CoInitializeEx sys = S_OK" "CoCreateInstance sys = S_OK"
    "GetDefaultAudioEndpoint sys = S_OK" "Activate sys = S_OK"
    "RegisterSessionNotification sys = S_OK" "GetSessionEnumerator sys = S_OK"
    "GetCount sys = S_OK"
    and "GetSession sys = pre @ g # post" and "\<forall>g \<in> set pre. clean st g"
    and "fst g \<noteq> S_OK" and "fst g \<noteq> AUDCLNT_S_NO_SINGLE_PROCESS"
  shows "fst (AudioThreadRoutine_start sys st) = Some Delete_of_automatic_object"
proof -
  have pre: "\<forall>g \<in> set pre. clean (registered_state st) g"
    using assms(9) by simp
  have "fst (enumerate_sessions (GetSession sys) S_OK (registered_state st)) = fst g"
    using enumerate_sessions_breaks(1) [OF pre assms(10)] assms(8) by simp
  then show ?thesis
    using assms(1-7,10,11) by (simp add: start_code GetIAudioSessionManager2_result(1))
qed

text \<open>
  C9. After COM initialisation, the session manager and the session notification have
  succeeded, a failure of \<^verbatim>\<open>GetSessionEnumerator\<close>, of \<^verbatim>\<open>GetCount\<close> or of the enumeration
  loop (here: registering the sink fails on the second of three sessions) takes the
  thread through the unwinding to \<^verbatim>\<open>pAudioEvents -> Release()\<close>, which deletes the local
  sink: the thread does not reach \<^verbatim>\<open>return 5\<close>, \<^verbatim>\<open>return 6\<close> or \<^verbatim>\<open>return 7\<close>. In the third
  case the first session had been registered and was released before that. A failure
  of \<^verbatim>\<open>RegisterSessionNotification\<close>, whose branch does not release the sink, returns 4.
\<close>

theorem AudioThreadRoutine_start_deletes_local_sink:
  "fst (AudioThreadRoutine_start ((working_system [1, 2, 3])\<lparr>GetSessionEnumerator := E_FAIL\<rparr>)
         (initial_state three_sessions)) = Some Delete_of_automatic_object \<and>
   fst (AudioThreadRoutine_start ((working_system [1, 2, 3])\<lparr>GetCount := E_FAIL\<rparr>)
         (initial_state three_sessions)) = Some Delete_of_automatic_object \<and>
   fst (AudioThreadRoutine_start (working_system [1, 2, 3]) (initial_state second_fails))
     = Some Delete_of_automatic_object \<and>
   sessionsList (snd (AudioThreadRoutine_start (working_system [1, 2, 3])
     (initial_state second_fails))) = [(5, 1)] \<and>
   refCount (snd (AudioThreadRoutine_start (working_system [1, 2, 3])
     (initial_state second_fails))) 1 = 0 \<and>
   fst (AudioThreadRoutine_start ((working_system [1, 2, 3])\<lparr>RegisterSessionNotification := E_FAIL\<rparr>)
         (initial_state three_sessions)) = Some (Exit 4)"
  by (simp add: AudioThreadRoutine_start_def GetIAudioSessionManager2_def working_system_def
      unwind_def CAudioSessionEvents_new_def CAudioSessionEvents_Release_def
      UnregisterSessionNotification_def ReleaseManager_def CoUninitialize_def
      AddAudioSession_def Let_def initial_state_def second_fails_def three_sessions_def
      plain_session_def full_session_id_def AddRef_def Release_def to_wstring_def decimal.simps)

section \<open>The registry built by AddAudioSession\<close>

text \<open>
  That every session object is registered once, as the theorems on the transitions
  assume, holds in every registry built by \<^verbatim>\<open>AddAudioSession\<close> from the empty one.
\<close>

lemma initial_registry_ok: "registry_ok (initial_state c)"
  by (simp add: registry_ok_def initial_state_def)

lemma AddAudioSession_registry_ok:
  assumes "registry_ok st"
  shows "registry_ok (snd (AddAudioSession k st))"
proof -
  have fresh: "k \<notin> snd ` set (sessionsList st)" if "session_identity st k \<notin> sessionIdSet st"
    using assms that by (auto simp: registry_ok_def list_all_iff)
  show ?thesis
    using assms fresh
    by (auto simp: AddAudioSession_def Let_def registry_ok_def list_all_iff AddRef_def
        session_identity_def)
qed

lemma registry_ok_once: "registry_ok st \<Longrightarrow> distinct (map snd (sessionsList st))"
  by (simp add: registry_ok_def)

text \<open>
  The state \<open>three_registered\<close> has the registry that the start of the tracker thread
  builds from the three sessions.
\<close>

lemma three_registered_reached:
  "fst (AudioThreadRoutine_start (working_system [1, 2, 3]) (initial_state three_sessions)) = None \<and>
   sessionsList (snd (AudioThreadRoutine_start (working_system [1, 2, 3]) (initial_state three_sessions)))
     = sessionsList three_registered \<and>
   sessionIdSet (snd (AudioThreadRoutine_start (working_system [1, 2, 3]) (initial_state three_sessions)))
     = sessionIdSet three_registered"
  by (simp add: AudioThreadRoutine_start_def GetIAudioSessionManager2_def working_system_def
      AddAudioSession_def Let_def initial_state_def three_sessions_def
      plain_session_def full_session_id_def AddRef_def Release_def to_wstring_def decimal.simps
      three_registered_def insert_commute)

end
